theory Spec2Isabelle
  imports Main "HOL-Library.AList" "HOL-Library.Multiset" "HOL-Library.Sublist"
begin

section \<open>The Go run-time objects the two engines are built from\<close>

text \<open>
  The package \<^verbatim>\<open>mapx\<close> offers two copy-on-write maps, \<^verbatim>\<open>CASMap\<close> (cas_map.go) and
  \<^verbatim>\<open>RWMutexMap\<close>. Both keep one atomic cell holding a pointer to the current
  snapshot, a Go \<^verbatim>\<open>map[K]V\<close>. The embedding is sequential: one caller, whose calls
  (and the calls its \<^verbatim>\<open>Range\<close> visitor makes) run one after the other.

  Go maps are reference objects, so they live in an explicit heap: a list of map
  objects, a reference being an index. \<^verbatim>\<open>&newMap\<close> and the map \<^verbatim>\<open>newMap\<close> refers to are
  created together and the variable is never assigned again, so one reference stands
  for both. A map object is an association list with pairwise distinct keys; the
  order of the list is the table's internal layout and is observed only through
  \<^verbatim>\<open>range\<close>, whose order the Go run time chooses afresh at every loop.
\<close>

datatype fault = InvalidPointer | Deadlock | UncomparableType

type_synonym ('k, 'v) gomap = "('k \<times> 'v) list"
type_synonym ref = nat
type_synonym ('k, 'v) heap = "('k, 'v) gomap list"

text \<open>
  The order of a \<^verbatim>\<open>range\<close> over a map is not specified by Go. The run time's choice
  is a list of numbers: the first picks the entry visited first among those left,
  and so on. Every choice yields a permutation of the entries, and every permutation
  is yielded by some choice (lemma \<open>pick_order_any\<close> below).
\<close>

type_synonym choice = "nat list"

fun pick_order :: "choice \<Rightarrow> 'a list \<Rightarrow> 'a list" where
  "pick_order cs [] = []"
| "pick_order [] xs = xs"
| "pick_order (c # cs) xs =
     (let i = c mod length xs in xs ! i # pick_order cs (take i xs @ drop (Suc i) xs))"

text \<open>\<^verbatim>\<open>make(map[K]V)\<close>: a new, empty map object.\<close>

definition make_map :: "('k, 'v) heap \<Rightarrow> ('k, 'v) heap \<times> ref" where
  "make_map h = (h @ [[]], length h)"

text \<open>\<^verbatim>\<open>make(map[K]V, n)\<close>: the size hint only pre-sizes the table.\<close>

definition make_map_hint :: "('k, 'v) heap \<Rightarrow> int \<Rightarrow> ('k, 'v) heap \<times> ref" where
  "make_map_hint h n = make_map h"

text \<open>\<^verbatim>\<open>v, ok := m[k]\<close>: \<open>Some v\<close> stands for \<^verbatim>\<open>(v, true)\<close>, \<open>None\<close> for \<^verbatim>\<open>(zero, false)\<close>.\<close>

definition map_index :: "('k, 'v) heap \<Rightarrow> ref \<Rightarrow> 'k \<Rightarrow> 'v option" where
  "map_index h p k = map_of (h ! p) k"

text \<open>\<^verbatim>\<open>m[k] = v\<close> and \<^verbatim>\<open>delete(m, k)\<close> change the map object in place.\<close>

definition map_assign :: "('k, 'v) heap \<Rightarrow> ref \<Rightarrow> 'k \<Rightarrow> 'v \<Rightarrow> ('k, 'v) heap" where
  "map_assign h p k v = h[p := AList.update k v (h ! p)]"

definition map_delete :: "('k, 'v) heap \<Rightarrow> ref \<Rightarrow> 'k \<Rightarrow> ('k, 'v) heap" where
  "map_delete h p k = h[p := AList.delete k (h ! p)]"

definition map_len :: "('k, 'v) heap \<Rightarrow> ref \<Rightarrow> nat" where
  "map_len h p = length (h ! p)"

text \<open>The entries of a map in the order one \<^verbatim>\<open>range\<close> loop meets them.\<close>

definition range_order :: "choice \<Rightarrow> ('k, 'v) heap \<Rightarrow> ref \<Rightarrow> ('k \<times> 'v) list" where
  "range_order c h p = pick_order c (h ! p)"

text \<open>
  \<^verbatim>\<open>*ptr\<close>: dereferencing nil panics. A reference outside the heap cannot arise in
  Go; the model treats it like nil.
\<close>

definition deref :: "('k, 'v) heap \<Rightarrow> ref option \<Rightarrow> fault + ref" where
  "deref h ptr =
     (case ptr of
        None \<Rightarrow> Inl InvalidPointer
      | Some p \<Rightarrow> if p < length h then Inr p else Inl InvalidPointer)"

text \<open>
  \<^verbatim>\<open>for k, v := range data { if !f(k, v) { break } }\<close> with a visitor that may itself
  run code on the container. The key order is fixed when the loop starts; each
  entry is read from the map object when its turn comes, and an entry removed from
  that object before its turn is not produced (entries added meanwhile are skipped,
  which Go permits). The result carries the log of the visitor's calls: key, value
  and the visitor's answer.
\<close>

fun range_loop ::
  "('s \<Rightarrow> ('k, 'v) heap) \<Rightarrow> ('k \<Rightarrow> 'v \<Rightarrow> 's \<Rightarrow> fault + bool \<times> 's) \<Rightarrow> ref \<Rightarrow> 'k list \<Rightarrow> 's
     \<Rightarrow> fault + ('k \<times> 'v \<times> bool) list \<times> 's" where
  "range_loop hp f p [] s = Inr ([], s)"
| "range_loop hp f p (k # ks) s =
     (case map_index (hp s) p k of
        None \<Rightarrow> range_loop hp f p ks s
      | Some v \<Rightarrow>
          (case f k v s of
             Inl e \<Rightarrow> Inl e
           | Inr (continue, s') \<Rightarrow>
               if \<not> continue then Inr ([(k, v, continue)], s')
               else (case range_loop hp f p ks s' of
                       Inl e \<Rightarrow> Inl e
                     | Inr (log, s'') \<Rightarrow> Inr ((k, v, continue) # log, s''))))"

text \<open>
  \<^verbatim>\<open>compare\<close> is \<^verbatim>\<open>any(a) == any(b)\<close>. Equality of interface values is the run time's:
  for a value type without equality (a slice, a map, a function) it panics. It is a
  parameter of the model, \<open>None\<close> being the panic.
\<close>

type_synonym 'v iface_eq = "'v \<Rightarrow> 'v \<Rightarrow> bool option"

definition compare :: "'v iface_eq \<Rightarrow> 'v \<Rightarrow> 'v \<Rightarrow> fault + bool" where
  "compare veq a b = (case veq a b of None \<Rightarrow> Inl UncomparableType | Some r \<Rightarrow> Inr r)"

text \<open>The value type has well-defined equality: \<^verbatim>\<open>==\<close> never panics and is equality.\<close>

definition comparable :: "'v iface_eq \<Rightarrow> bool" where
  "comparable veq = (\<forall>a b. veq a b = Some (a = b))"

text \<open>Equality of a comparable type, for example \<^verbatim>\<open>int\<close> or \<^verbatim>\<open>string\<close>.\<close>

definition go_eq :: "'v iface_eq" where
  "go_eq a b = Some (a = b)"

text \<open>A type without equality, for example \<^verbatim>\<open>[]int\<close>: every comparison panics.\<close>

definition no_eq :: "'v iface_eq" where
  "no_eq a b = None"


section \<open>CASMap (cas_map.go)\<close>

text \<open>
  \<^verbatim>\<open>data atomic.Pointer[map[K]V]\<close>. The field \<open>cas_calls\<close> is not program state: it
  counts the calls of \<^verbatim>\<open>data.CompareAndSwap\<close>, so that "no CAS attempt" can be stated.
  The heap holds the map objects this container has allocated.
\<close>

record ('k, 'v) CASMap =
  heap :: "('k, 'v) heap"
  data :: "ref option"
  cas_calls :: nat

definition CASMap_data_Load :: "('k, 'v) CASMap \<Rightarrow> ref option" where
  "CASMap_data_Load m = CASMap.data m"

definition CASMap_data_Store :: "('k, 'v) CASMap \<Rightarrow> ref option \<Rightarrow> ('k, 'v) CASMap" where
  "CASMap_data_Store m new = m\<lparr>CASMap.data := new\<rparr>"

definition CASMap_data_CompareAndSwap ::
  "('k, 'v) CASMap \<Rightarrow> ref option \<Rightarrow> ref option \<Rightarrow> bool \<times> ('k, 'v) CASMap" where
  "CASMap_data_CompareAndSwap m old new =
     (let m' = m\<lparr>cas_calls := Suc (cas_calls m)\<rparr>
      in if CASMap.data m' = old then (True, m'\<lparr>CASMap.data := new\<rparr>) else (False, m'))"

definition NewCASMap :: "('k, 'v) CASMap" where
  "NewCASMap =
     (let m = \<lparr>CASMap.heap = [], CASMap.data = None, cas_calls = 0\<rparr>;
          (h, newMap) = make_map (CASMap.heap m)
      in CASMap_data_Store (m\<lparr>CASMap.heap := h\<rparr>) (Some newMap))"

definition NewCASMapWithCapacity :: "int \<Rightarrow> ('k, 'v) CASMap" where
  "NewCASMapWithCapacity capacity =
     (let m = \<lparr>CASMap.heap = [], CASMap.data = None, cas_calls = 0\<rparr>;
          (h, newMap) = make_map_hint (CASMap.heap m) capacity
      in CASMap_data_Store (m\<lparr>CASMap.heap := h\<rparr>) (Some newMap))"

definition CASMap_load :: "('k, 'v) CASMap \<Rightarrow> fault + ref" where
  "CASMap_load m = deref (CASMap.heap m) (CASMap_data_Load m)"

definition CASMap_copyMap :: "choice \<Rightarrow> ('k, 'v) CASMap \<Rightarrow> ref \<Rightarrow> ('k, 'v) CASMap \<times> ref" where
  "CASMap_copyMap c m oldMap =
     (let (h, newMap) = make_map_hint (CASMap.heap m) (int (map_len (CASMap.heap m) oldMap));
          h' = fold (\<lambda>(k, v) h. map_assign h newMap k v) (range_order c h oldMap) h
      in (m\<lparr>CASMap.heap := h'\<rparr>, newMap))"

definition CASMap_Get :: "('k, 'v) CASMap \<Rightarrow> 'k \<Rightarrow> fault + 'v option" where
  "CASMap_Get m key =
     (case CASMap_load m of
        Inl e \<Rightarrow> Inl e
      | Inr cur \<Rightarrow> Inr (map_index (CASMap.heap m) cur key))"

text \<open>
  The retry loops are recursive functions: the recursive call is the next turn of
  \<^verbatim>\<open>for { ... }\<close> after a failed \<^verbatim>\<open>CompareAndSwap\<close>. With a single caller the pointer
  just loaded is still the current one, which is what the termination proofs use.
\<close>

function CASMap_Set ::
  "choice \<Rightarrow> ('k, 'v) CASMap \<Rightarrow> 'k \<Rightarrow> 'v \<Rightarrow> fault + ('k, 'v) CASMap" where
  "CASMap_Set c m key val =
     (let oldPtr = CASMap_data_Load m in
      case deref (CASMap.heap m) oldPtr of
        Inl e \<Rightarrow> Inl e
      | Inr oldMap \<Rightarrow>
          let (m1, newMap) = CASMap_copyMap c m oldMap;
              m2 = m1\<lparr>CASMap.heap := map_assign (CASMap.heap m1) newMap key val\<rparr>;
              (swapped, m3) = CASMap_data_CompareAndSwap m2 oldPtr (Some newMap)
          in if swapped then Inr m3 else CASMap_Set c m3 key val)"
  by pat_completeness auto
termination
  by (relation "{}")
     (auto simp: CASMap_data_Load_def CASMap_data_CompareAndSwap_def CASMap_copyMap_def
                 Let_def split: prod.splits if_splits)

declare CASMap_Set.simps [simp del]

function CASMap_Delete ::
  "choice \<Rightarrow> ('k, 'v) CASMap \<Rightarrow> 'k \<Rightarrow> fault + ('k, 'v) CASMap" where
  "CASMap_Delete c m key =
     (let oldPtr = CASMap_data_Load m in
      case deref (CASMap.heap m) oldPtr of
        Inl e \<Rightarrow> Inl e
      | Inr oldMap \<Rightarrow>
          (case map_index (CASMap.heap m) oldMap key of
             None \<Rightarrow> Inr m
           | Some _ \<Rightarrow>
               let (m1, newMap) = CASMap_copyMap c m oldMap;
                   m2 = m1\<lparr>CASMap.heap := map_delete (CASMap.heap m1) newMap key\<rparr>;
                   (swapped, m3) = CASMap_data_CompareAndSwap m2 oldPtr (Some newMap)
               in if swapped then Inr m3 else CASMap_Delete c m3 key))"
  by pat_completeness auto
termination
  by (relation "{}")
     (auto simp: CASMap_data_Load_def CASMap_data_CompareAndSwap_def CASMap_copyMap_def
                 Let_def split: prod.splits if_splits)

declare CASMap_Delete.simps [simp del]

definition CASMap_Len :: "('k, 'v) CASMap \<Rightarrow> fault + nat" where
  "CASMap_Len m =
     (case CASMap_load m of
        Inl e \<Rightarrow> Inl e
      | Inr cur \<Rightarrow> Inr (map_len (CASMap.heap m) cur))"


definition CASMap_Clear :: "('k, 'v) CASMap \<Rightarrow> ('k, 'v) CASMap" where
  "CASMap_Clear m =
     (let (h, newMap) = make_map (CASMap.heap m)
      in CASMap_data_Store (m\<lparr>CASMap.heap := h\<rparr>) (Some newMap))"

definition CASMap_Range ::
  "choice \<Rightarrow> ('k \<Rightarrow> 'v \<Rightarrow> ('k, 'v) CASMap \<Rightarrow> fault + bool \<times> ('k, 'v) CASMap) \<Rightarrow> ('k, 'v) CASMap
     \<Rightarrow> fault + ('k \<times> 'v \<times> bool) list \<times> ('k, 'v) CASMap" where
  "CASMap_Range c f m =
     (case CASMap_load m of
        Inl e \<Rightarrow> Inl e
      | Inr cur \<Rightarrow>
          range_loop CASMap.heap f cur (map fst (range_order c (CASMap.heap m) cur)) m)"



function CASMap_GetOrSet_retry ::
  "choice \<Rightarrow> ('k, 'v) CASMap \<Rightarrow> 'k \<Rightarrow> 'v \<Rightarrow> fault + ('v \<times> bool) \<times> ('k, 'v) CASMap" where
  "CASMap_GetOrSet_retry c m key val =
     (let oldPtr = CASMap_data_Load m in
      case deref (CASMap.heap m) oldPtr of
        Inl e \<Rightarrow> Inl e
      | Inr oldMap \<Rightarrow>
          (case map_index (CASMap.heap m) oldMap key of
             Some v \<Rightarrow> Inr ((v, True), m)
           | None \<Rightarrow>
               let (m1, newMap) = CASMap_copyMap c m oldMap;
                   m2 = m1\<lparr>CASMap.heap := map_assign (CASMap.heap m1) newMap key val\<rparr>;
                   (swapped, m3) = CASMap_data_CompareAndSwap m2 oldPtr (Some newMap)
               in if swapped then Inr ((val, False), m3)
                  else CASMap_GetOrSet_retry c m3 key val))"
  by pat_completeness auto
termination
  by (relation "{}")
     (auto simp: CASMap_data_Load_def CASMap_data_CompareAndSwap_def CASMap_copyMap_def
                 Let_def split: prod.splits if_splits)

declare CASMap_GetOrSet_retry.simps [simp del]

text \<open>The fast path of \<^verbatim>\<open>GetOrSet\<close>, then the loop above.\<close>

definition CASMap_GetOrSet ::
  "choice \<Rightarrow> ('k, 'v) CASMap \<Rightarrow> 'k \<Rightarrow> 'v \<Rightarrow> fault + ('v \<times> bool) \<times> ('k, 'v) CASMap" where
  "CASMap_GetOrSet c m key val =
     (case CASMap_load m of
        Inl e \<Rightarrow> Inl e
      | Inr cur \<Rightarrow>
          (case map_index (CASMap.heap m) cur key of
             Some v \<Rightarrow> Inr ((v, True), m)
           | None \<Rightarrow> CASMap_GetOrSet_retry c m key val))"

function CASMap_SetIfAbsent ::
  "choice \<Rightarrow> ('k, 'v) CASMap \<Rightarrow> 'k \<Rightarrow> 'v \<Rightarrow> fault + bool \<times> ('k, 'v) CASMap" where
  "CASMap_SetIfAbsent c m key val =
     (let oldPtr = CASMap_data_Load m in
      case deref (CASMap.heap m) oldPtr of
        Inl e \<Rightarrow> Inl e
      | Inr oldMap \<Rightarrow>
          (case map_index (CASMap.heap m) oldMap key of
             Some _ \<Rightarrow> Inr (False, m)
           | None \<Rightarrow>
               let (m1, newMap) = CASMap_copyMap c m oldMap;
                   m2 = m1\<lparr>CASMap.heap := map_assign (CASMap.heap m1) newMap key val\<rparr>;
                   (swapped, m3) = CASMap_data_CompareAndSwap m2 oldPtr (Some newMap)
               in if swapped then Inr (True, m3) else CASMap_SetIfAbsent c m3 key val))"
  by pat_completeness auto
termination
  by (relation "{}")
     (auto simp: CASMap_data_Load_def CASMap_data_CompareAndSwap_def CASMap_copyMap_def
                 Let_def split: prod.splits if_splits)

declare CASMap_SetIfAbsent.simps [simp del]

text \<open>
  \<^verbatim>\<open>!ok || !compare(v, oldValue)\<close>: \<^verbatim>\<open>compare\<close> is evaluated only when the key is present.
\<close>

function CASMap_CompareAndSwap ::
  "'v iface_eq \<Rightarrow> choice \<Rightarrow> ('k, 'v) CASMap \<Rightarrow> 'k \<Rightarrow> 'v \<Rightarrow> 'v
     \<Rightarrow> fault + bool \<times> ('k, 'v) CASMap" where
  "CASMap_CompareAndSwap veq c m key oldValue newValue =
     (let oldPtr = CASMap_data_Load m in
      case deref (CASMap.heap m) oldPtr of
        Inl e \<Rightarrow> Inl e
      | Inr oldMap \<Rightarrow>
          (case map_index (CASMap.heap m) oldMap key of
             None \<Rightarrow> Inr (False, m)
           | Some v \<Rightarrow>
               (case compare veq v oldValue of
                  Inl e \<Rightarrow> Inl e
                | Inr same \<Rightarrow>
                    if \<not> same then Inr (False, m)
                    else
                      let (m1, newMap) = CASMap_copyMap c m oldMap;
                          m2 = m1\<lparr>CASMap.heap :=
                                    map_assign (CASMap.heap m1) newMap key newValue\<rparr>;
                          (swapped, m3) = CASMap_data_CompareAndSwap m2 oldPtr (Some newMap)
                      in if swapped then Inr (True, m3)
                         else CASMap_CompareAndSwap veq c m3 key oldValue newValue)))"
  by pat_completeness auto
termination
  by (relation "{}")
     (auto simp: CASMap_data_Load_def CASMap_data_CompareAndSwap_def CASMap_copyMap_def
                 Let_def split: prod.splits if_splits)

declare CASMap_CompareAndSwap.simps [simp del]


section \<open>RWMutexMap\<close>

text \<open>
  \<^verbatim>\<open>mu sync.Mutex\<close> and \<^verbatim>\<open>data atomic.Value\<close> (holding a \<^verbatim>\<open>*map[K]V\<close>). \<open>mu\<close> is true
  while the mutex is held.
\<close>

record ('k, 'v) RWMutexMap =
  mu :: bool
  heap :: "('k, 'v) heap"
  data :: "ref option"

text \<open>
  \<^verbatim>\<open>sync.Mutex\<close> is not reentrant: with a single caller, \<^verbatim>\<open>Lock\<close> on a held mutex never
  returns. \<^verbatim>\<open>Unlock\<close> is only ever reached through \<^verbatim>\<open>defer\<close> after a \<^verbatim>\<open>Lock\<close>.
\<close>

definition RWMutexMap_mu_Lock :: "('k, 'v) RWMutexMap \<Rightarrow> fault + ('k, 'v) RWMutexMap" where
  "RWMutexMap_mu_Lock r = (if mu r then Inl Deadlock else Inr (r\<lparr>mu := True\<rparr>))"

definition RWMutexMap_mu_Unlock :: "('k, 'v) RWMutexMap \<Rightarrow> ('k, 'v) RWMutexMap" where
  "RWMutexMap_mu_Unlock r = r\<lparr>mu := False\<rparr>"

definition RWMutexMap_data_Load :: "('k, 'v) RWMutexMap \<Rightarrow> ref option" where
  "RWMutexMap_data_Load r = RWMutexMap.data r"

definition RWMutexMap_data_Store ::
  "('k, 'v) RWMutexMap \<Rightarrow> ref option \<Rightarrow> ('k, 'v) RWMutexMap" where
  "RWMutexMap_data_Store r new = r\<lparr>RWMutexMap.data := new\<rparr>"

definition NewRWMutexMap :: "('k, 'v) RWMutexMap" where
  "NewRWMutexMap =
     (let r = \<lparr>mu = False, RWMutexMap.heap = [], RWMutexMap.data = None\<rparr>;
          (h, newMap) = make_map (RWMutexMap.heap r)
      in RWMutexMap_data_Store (r\<lparr>RWMutexMap.heap := h\<rparr>) (Some newMap))"

definition NewRWMutexMapWithCapacity :: "int \<Rightarrow> ('k, 'v) RWMutexMap" where
  "NewRWMutexMapWithCapacity capacity =
     (let r = \<lparr>mu = False, RWMutexMap.heap = [], RWMutexMap.data = None\<rparr>;
          (h, newMap) = make_map_hint (RWMutexMap.heap r) capacity
      in RWMutexMap_data_Store (r\<lparr>RWMutexMap.heap := h\<rparr>) (Some newMap))"

text \<open>\<^verbatim>\<open>*m.data.Load().(*map[K]V)\<close>: the assertion panics when nothing was stored.\<close>

definition RWMutexMap_load :: "('k, 'v) RWMutexMap \<Rightarrow> fault + ref" where
  "RWMutexMap_load r = deref (RWMutexMap.heap r) (RWMutexMap_data_Load r)"

definition RWMutexMap_copyMap ::
  "choice \<Rightarrow> ('k, 'v) RWMutexMap \<Rightarrow> ref \<Rightarrow> ('k, 'v) RWMutexMap \<times> ref" where
  "RWMutexMap_copyMap c r oldMap =
     (let (h, newMap) =
            make_map_hint (RWMutexMap.heap r) (int (map_len (RWMutexMap.heap r) oldMap));
          h' = fold (\<lambda>(k, v) h. map_assign h newMap k v) (range_order c h oldMap) h
      in (r\<lparr>RWMutexMap.heap := h'\<rparr>, newMap))"

definition RWMutexMap_Get :: "('k, 'v) RWMutexMap \<Rightarrow> 'k \<Rightarrow> fault + 'v option" where
  "RWMutexMap_Get r key =
     (case RWMutexMap_load r of
        Inl e \<Rightarrow> Inl e
      | Inr cur \<Rightarrow> Inr (map_index (RWMutexMap.heap r) cur key))"

text \<open>
  Every writer is \<^verbatim>\<open>m.mu.Lock(); defer m.mu.Unlock(); ...\<close>: the unlock runs on each
  return path.
\<close>

definition RWMutexMap_Set ::
  "choice \<Rightarrow> ('k, 'v) RWMutexMap \<Rightarrow> 'k \<Rightarrow> 'v \<Rightarrow> fault + ('k, 'v) RWMutexMap" where
  "RWMutexMap_Set c r key val =
     (case RWMutexMap_mu_Lock r of
        Inl e \<Rightarrow> Inl e
      | Inr r0 \<Rightarrow>
          (case RWMutexMap_load r0 of
             Inl e \<Rightarrow> Inl e
           | Inr oldMap \<Rightarrow>
               let (r1, newMap) = RWMutexMap_copyMap c r0 oldMap;
                   r2 = r1\<lparr>RWMutexMap.heap := map_assign (RWMutexMap.heap r1) newMap key val\<rparr>;
                   r3 = RWMutexMap_data_Store r2 (Some newMap)
               in Inr (RWMutexMap_mu_Unlock r3)))"

definition RWMutexMap_Delete ::
  "choice \<Rightarrow> ('k, 'v) RWMutexMap \<Rightarrow> 'k \<Rightarrow> fault + ('k, 'v) RWMutexMap" where
  "RWMutexMap_Delete c r key =
     (case RWMutexMap_mu_Lock r of
        Inl e \<Rightarrow> Inl e
      | Inr r0 \<Rightarrow>
          (case RWMutexMap_load r0 of
             Inl e \<Rightarrow> Inl e
           | Inr oldMap \<Rightarrow>
               (case map_index (RWMutexMap.heap r0) oldMap key of
                  None \<Rightarrow> Inr (RWMutexMap_mu_Unlock r0)
                | Some _ \<Rightarrow>
                    let (r1, newMap) = RWMutexMap_copyMap c r0 oldMap;
                        r2 = r1\<lparr>RWMutexMap.heap :=
                                  map_delete (RWMutexMap.heap r1) newMap key\<rparr>;
                        r3 = RWMutexMap_data_Store r2 (Some newMap)
                    in Inr (RWMutexMap_mu_Unlock r3))))"

definition RWMutexMap_Len :: "('k, 'v) RWMutexMap \<Rightarrow> fault + nat" where
  "RWMutexMap_Len r =
     (case RWMutexMap_load r of
        Inl e \<Rightarrow> Inl e
      | Inr cur \<Rightarrow> Inr (map_len (RWMutexMap.heap r) cur))"


definition RWMutexMap_Clear :: "('k, 'v) RWMutexMap \<Rightarrow> fault + ('k, 'v) RWMutexMap" where
  "RWMutexMap_Clear r =
     (case RWMutexMap_mu_Lock r of
        Inl e \<Rightarrow> Inl e
      | Inr r0 \<Rightarrow>
          let (h, newMap) = make_map (RWMutexMap.heap r0);
              r1 = RWMutexMap_data_Store (r0\<lparr>RWMutexMap.heap := h\<rparr>) (Some newMap)
          in Inr (RWMutexMap_mu_Unlock r1))"

definition RWMutexMap_Range ::
  "choice \<Rightarrow> ('k \<Rightarrow> 'v \<Rightarrow> ('k, 'v) RWMutexMap \<Rightarrow> fault + bool \<times> ('k, 'v) RWMutexMap)
     \<Rightarrow> ('k, 'v) RWMutexMap \<Rightarrow> fault + ('k \<times> 'v \<times> bool) list \<times> ('k, 'v) RWMutexMap" where
  "RWMutexMap_Range c f r =
     (case RWMutexMap_load r of
        Inl e \<Rightarrow> Inl e
      | Inr cur \<Rightarrow>
          range_loop RWMutexMap.heap f cur
            (map fst (range_order c (RWMutexMap.heap r) cur)) r)"



definition RWMutexMap_GetOrSet ::
  "choice \<Rightarrow> ('k, 'v) RWMutexMap \<Rightarrow> 'k \<Rightarrow> 'v \<Rightarrow> fault + ('v \<times> bool) \<times> ('k, 'v) RWMutexMap" where
  "RWMutexMap_GetOrSet c r key val =
     (case RWMutexMap_load r of
        Inl e \<Rightarrow> Inl e
      | Inr cur \<Rightarrow>
          (case map_index (RWMutexMap.heap r) cur key of
             Some v \<Rightarrow> Inr ((v, True), r)
           | None \<Rightarrow>
               (case RWMutexMap_mu_Lock r of
                  Inl e \<Rightarrow> Inl e
                | Inr r0 \<Rightarrow>
                    (case RWMutexMap_load r0 of
                       Inl e \<Rightarrow> Inl e
                     | Inr oldMap \<Rightarrow>
                         (case map_index (RWMutexMap.heap r0) oldMap key of
                            Some v \<Rightarrow> Inr ((v, True), RWMutexMap_mu_Unlock r0)
                          | None \<Rightarrow>
                              let (r1, newMap) = RWMutexMap_copyMap c r0 oldMap;
                                  r2 = r1\<lparr>RWMutexMap.heap :=
                                            map_assign (RWMutexMap.heap r1) newMap key val\<rparr>;
                                  r3 = RWMutexMap_data_Store r2 (Some newMap)
                              in Inr ((val, False), RWMutexMap_mu_Unlock r3))))))"

definition RWMutexMap_SetIfAbsent ::
  "choice \<Rightarrow> ('k, 'v) RWMutexMap \<Rightarrow> 'k \<Rightarrow> 'v \<Rightarrow> fault + bool \<times> ('k, 'v) RWMutexMap" where
  "RWMutexMap_SetIfAbsent c r key val =
     (case RWMutexMap_mu_Lock r of
        Inl e \<Rightarrow> Inl e
      | Inr r0 \<Rightarrow>
          (case RWMutexMap_load r0 of
             Inl e \<Rightarrow> Inl e
           | Inr oldMap \<Rightarrow>
               (case map_index (RWMutexMap.heap r0) oldMap key of
                  Some _ \<Rightarrow> Inr (False, RWMutexMap_mu_Unlock r0)
                | None \<Rightarrow>
                    let (r1, newMap) = RWMutexMap_copyMap c r0 oldMap;
                        r2 = r1\<lparr>RWMutexMap.heap :=
                                  map_assign (RWMutexMap.heap r1) newMap key val\<rparr>;
                        r3 = RWMutexMap_data_Store r2 (Some newMap)
                    in Inr (True, RWMutexMap_mu_Unlock r3))))"

definition RWMutexMap_CompareAndSwap ::
  "'v iface_eq \<Rightarrow> choice \<Rightarrow> ('k, 'v) RWMutexMap \<Rightarrow> 'k \<Rightarrow> 'v \<Rightarrow> 'v
     \<Rightarrow> fault + bool \<times> ('k, 'v) RWMutexMap" where
  "RWMutexMap_CompareAndSwap veq c r key oldValue newValue =
     (case RWMutexMap_mu_Lock r of
        Inl e \<Rightarrow> Inl e
      | Inr r0 \<Rightarrow>
          (case RWMutexMap_load r0 of
             Inl e \<Rightarrow> Inl e
           | Inr oldMap \<Rightarrow>
               (case map_index (RWMutexMap.heap r0) oldMap key of
                  None \<Rightarrow> Inr (False, RWMutexMap_mu_Unlock r0)
                | Some v \<Rightarrow>
                    (case compare veq v oldValue of
                       Inl e \<Rightarrow> Inl e
                     | Inr same \<Rightarrow>
                         if \<not> same then Inr (False, RWMutexMap_mu_Unlock r0)
                         else
                           let (r1, newMap) = RWMutexMap_copyMap c r0 oldMap;
                               r2 = r1\<lparr>RWMutexMap.heap :=
                                         map_assign (RWMutexMap.heap r1) newMap key newValue\<rparr>;
                               r3 = RWMutexMap_data_Store r2 (Some newMap)
                           in Inr (True, RWMutexMap_mu_Unlock r3)))))"


section \<open>Well-formed containers\<close>

text \<open>
  What holds of every container built by a constructor and used through its methods:
  the cell points to an allocated map, and every map object has distinct keys. For
  the mutex engine the mutex is free between calls.
\<close>

definition heap_ok :: "('k, 'v) heap \<Rightarrow> ref option \<Rightarrow> bool" where
  "heap_ok h ptr =
     ((case ptr of None \<Rightarrow> False | Some p \<Rightarrow> p < length h)
      \<and> list_all (\<lambda>snap. distinct (map fst snap)) h)"

definition CASMap_wf :: "('k, 'v) CASMap \<Rightarrow> bool" where
  "CASMap_wf m = heap_ok (CASMap.heap m) (CASMap.data m)"

definition RWMutexMap_wf :: "('k, 'v) RWMutexMap \<Rightarrow> bool" where
  "RWMutexMap_wf r = (heap_ok (RWMutexMap.heap r) (RWMutexMap.data r) \<and> \<not> mu r)"

text \<open>The current snapshot: the map object the cell points to.\<close>

definition current :: "('k, 'v) heap \<Rightarrow> ref option \<Rightarrow> ('k, 'v) gomap" where
  "current h ptr = (case ptr of None \<Rightarrow> [] | Some p \<Rightarrow> if p < length h then h ! p else [])"

definition CASMap_snapshot :: "('k, 'v) CASMap \<Rightarrow> ('k, 'v) gomap" where
  "CASMap_snapshot m = current (CASMap.heap m) (CASMap.data m)"

definition RWMutexMap_snapshot :: "('k, 'v) RWMutexMap \<Rightarrow> ('k, 'v) gomap" where
  "RWMutexMap_snapshot r = current (RWMutexMap.heap r) (RWMutexMap.data r)"


section \<open>A single caller: sequences of calls, visitors that call back\<close>

text \<open>The write operations of the common contract, and what each call returns.\<close>

datatype ('k, 'v) op =
    OpSet 'k 'v
  | OpDelete 'k
  | OpClear
  | OpGetOrSet 'k 'v
  | OpSetIfAbsent 'k 'v
  | OpCompareAndSwap 'k 'v 'v

datatype 'v ret = RetNone | RetBool bool | RetPair 'v bool

fun CASMap_call ::
  "'v iface_eq \<Rightarrow> choice \<Rightarrow> ('k, 'v) op \<Rightarrow> ('k, 'v) CASMap \<Rightarrow> fault + 'v ret \<times> ('k, 'v) CASMap" where
  "CASMap_call veq c (OpSet k v) m =
     (case CASMap_Set c m k v of Inl e \<Rightarrow> Inl e | Inr m' \<Rightarrow> Inr (RetNone, m'))"
| "CASMap_call veq c (OpDelete k) m =
     (case CASMap_Delete c m k of Inl e \<Rightarrow> Inl e | Inr m' \<Rightarrow> Inr (RetNone, m'))"
| "CASMap_call veq c OpClear m = Inr (RetNone, CASMap_Clear m)"
| "CASMap_call veq c (OpGetOrSet k v) m =
     (case CASMap_GetOrSet c m k v of
        Inl e \<Rightarrow> Inl e
      | Inr ((x, existed), m') \<Rightarrow> Inr (RetPair x existed, m'))"
| "CASMap_call veq c (OpSetIfAbsent k v) m =
     (case CASMap_SetIfAbsent c m k v of Inl e \<Rightarrow> Inl e | Inr (b, m') \<Rightarrow> Inr (RetBool b, m'))"
| "CASMap_call veq c (OpCompareAndSwap k old new) m =
     (case CASMap_CompareAndSwap veq c m k old new of
        Inl e \<Rightarrow> Inl e
      | Inr (b, m') \<Rightarrow> Inr (RetBool b, m'))"

fun RWMutexMap_call ::
  "'v iface_eq \<Rightarrow> choice \<Rightarrow> ('k, 'v) op \<Rightarrow> ('k, 'v) RWMutexMap
     \<Rightarrow> fault + 'v ret \<times> ('k, 'v) RWMutexMap" where
  "RWMutexMap_call veq c (OpSet k v) r =
     (case RWMutexMap_Set c r k v of Inl e \<Rightarrow> Inl e | Inr r' \<Rightarrow> Inr (RetNone, r'))"
| "RWMutexMap_call veq c (OpDelete k) r =
     (case RWMutexMap_Delete c r k of Inl e \<Rightarrow> Inl e | Inr r' \<Rightarrow> Inr (RetNone, r'))"
| "RWMutexMap_call veq c OpClear r =
     (case RWMutexMap_Clear r of Inl e \<Rightarrow> Inl e | Inr r' \<Rightarrow> Inr (RetNone, r'))"
| "RWMutexMap_call veq c (OpGetOrSet k v) r =
     (case RWMutexMap_GetOrSet c r k v of
        Inl e \<Rightarrow> Inl e
      | Inr ((x, existed), r') \<Rightarrow> Inr (RetPair x existed, r'))"
| "RWMutexMap_call veq c (OpSetIfAbsent k v) r =
     (case RWMutexMap_SetIfAbsent c r k v of
        Inl e \<Rightarrow> Inl e
      | Inr (b, r') \<Rightarrow> Inr (RetBool b, r'))"
| "RWMutexMap_call veq c (OpCompareAndSwap k old new) r =
     (case RWMutexMap_CompareAndSwap veq c r k old new of
        Inl e \<Rightarrow> Inl e
      | Inr (b, r') \<Rightarrow> Inr (RetBool b, r'))"

text \<open>
  A sequence of calls by one caller; each call comes with the order the run time
  picks for the \<^verbatim>\<open>range\<close> loop inside \<^verbatim>\<open>copyMap\<close>. A panic ends the run.
\<close>

fun CASMap_run ::
  "'v iface_eq \<Rightarrow> (choice \<times> ('k, 'v) op) list \<Rightarrow> ('k, 'v) CASMap
     \<Rightarrow> fault + 'v ret list \<times> ('k, 'v) CASMap" where
  "CASMap_run veq [] m = Inr ([], m)"
| "CASMap_run veq ((c, call) # calls) m =
     (case CASMap_call veq c call m of
        Inl e \<Rightarrow> Inl e
      | Inr (x, m') \<Rightarrow>
          (case CASMap_run veq calls m' of
             Inl e \<Rightarrow> Inl e
           | Inr (xs, m'') \<Rightarrow> Inr (x # xs, m'')))"

fun RWMutexMap_run ::
  "'v iface_eq \<Rightarrow> (choice \<times> ('k, 'v) op) list \<Rightarrow> ('k, 'v) RWMutexMap
     \<Rightarrow> fault + 'v ret list \<times> ('k, 'v) RWMutexMap" where
  "RWMutexMap_run veq [] r = Inr ([], r)"
| "RWMutexMap_run veq ((c, call) # calls) r =
     (case RWMutexMap_call veq c call r of
        Inl e \<Rightarrow> Inl e
      | Inr (x, r') \<Rightarrow>
          (case RWMutexMap_run veq calls r' of
             Inl e \<Rightarrow> Inl e
           | Inr (xs, r'') \<Rightarrow> Inr (x # xs, r'')))"

text \<open>
  A visitor passed to \<^verbatim>\<open>Range\<close> that works on the container it iterates: looking at
  the entry and at the container, it makes some write calls and answers whether to
  go on. (Reads need no calls of their own: the visitor is a function of the
  container's state.)
\<close>

definition CASMap_visitor ::
  "'v iface_eq \<Rightarrow> ('k \<Rightarrow> 'v \<Rightarrow> ('k, 'v) CASMap \<Rightarrow> (choice \<times> ('k, 'v) op) list \<times> bool)
     \<Rightarrow> 'k \<Rightarrow> 'v \<Rightarrow> ('k, 'v) CASMap \<Rightarrow> fault + bool \<times> ('k, 'v) CASMap" where
  "CASMap_visitor veq g k v m =
     (case g k v m of
        (calls, continue) \<Rightarrow>
          (case CASMap_run veq calls m of
             Inl e \<Rightarrow> Inl e
           | Inr (xs, m') \<Rightarrow> Inr (continue, m')))"

definition RWMutexMap_visitor ::
  "'v iface_eq \<Rightarrow> ('k \<Rightarrow> 'v \<Rightarrow> ('k, 'v) RWMutexMap \<Rightarrow> (choice \<times> ('k, 'v) op) list \<times> bool)
     \<Rightarrow> 'k \<Rightarrow> 'v \<Rightarrow> ('k, 'v) RWMutexMap \<Rightarrow> fault + bool \<times> ('k, 'v) RWMutexMap" where
  "RWMutexMap_visitor veq g k v r =
     (case g k v r of
        (calls, continue) \<Rightarrow>
          (case RWMutexMap_run veq calls r of
             Inl e \<Rightarrow> Inl e
           | Inr (xs, r') \<Rightarrow> Inr (continue, r')))"


text \<open>The log of a \<^verbatim>\<open>Range\<close>: the entries visited, and the visitor's answers.\<close>

definition visited :: "('k \<times> 'v \<times> bool) list \<Rightarrow> ('k \<times> 'v) list" where
  "visited log = map (\<lambda>(k, v, continue). (k, v)) log"

definition answers :: "('k \<times> 'v \<times> bool) list \<Rightarrow> bool list" where
  "answers log = map (\<lambda>(k, v, continue). continue) log"

text \<open>
  The visitor was stopped by nothing but its own first \<open>False\<close>: every answer before
  the last is \<open>True\<close>, and a log shorter than the \<open>n\<close> entries of the snapshot ends
  in \<open>False\<close>.
\<close>

definition stops_at_first_false :: "nat \<Rightarrow> bool list \<Rightarrow> bool" where
  "stops_at_first_false n bs =
     (list_all (\<lambda>b. b) (butlast bs) \<and> (length bs < n \<longrightarrow> bs \<noteq> [] \<and> \<not> last bs))"


section \<open>The reference: a plain map used by one caller\<close>




section \<open>Vocabulary of the proofs\<close>

text \<open>
  What a write leaves behind: the old heap with one more map object, and the cell
  pointing to it. \<open>CASMap_install\<close> is the plain \<^verbatim>\<open>Store\<close> of \<^verbatim>\<open>Clear\<close>;
  \<open>CASMap_publish\<close> is one successful \<^verbatim>\<open>CompareAndSwap\<close>.
\<close>

definition CASMap_install :: "('k, 'v) CASMap \<Rightarrow> ('k, 'v) gomap \<Rightarrow> ('k, 'v) CASMap" where
  "CASMap_install m snap =
     m\<lparr>CASMap.heap := CASMap.heap m @ [snap], CASMap.data := Some (length (CASMap.heap m))\<rparr>"

definition CASMap_publish :: "('k, 'v) CASMap \<Rightarrow> ('k, 'v) gomap \<Rightarrow> ('k, 'v) CASMap" where
  "CASMap_publish m snap = (CASMap_install m snap)\<lparr>cas_calls := Suc (cas_calls m)\<rparr>"

definition RWMutexMap_publish ::
  "('k, 'v) RWMutexMap \<Rightarrow> ('k, 'v) gomap \<Rightarrow> ('k, 'v) RWMutexMap" where
  "RWMutexMap_publish r snap =
     r\<lparr>RWMutexMap.heap := RWMutexMap.heap r @ [snap],
       RWMutexMap.data := Some (length (RWMutexMap.heap r))\<rparr>"




section \<open>Example containers\<close>

text \<open>
  The containers the concrete instances below are stated on: what
  \<^verbatim>\<open>Set("a", 1); Set("b", 2); Set("c", 1)\<close> leaves of a new container of either engine
  (lemmas \<open>example_CASMap_reached\<close> and \<open>example_RWMutexMap_reached\<close>).
\<close>

definition example_CASMap :: "(string, int) CASMap" where
  "example_CASMap =
     \<lparr>CASMap.heap =
        [[], [(''a'', 1)], [(''a'', 1), (''b'', 2)], [(''a'', 1), (''b'', 2), (''c'', 1)]],
      CASMap.data = Some 3, cas_calls = 3\<rparr>"

definition example_RWMutexMap :: "(string, int) RWMutexMap" where
  "example_RWMutexMap =
     \<lparr>mu = False,
      RWMutexMap.heap =
        [[], [(''a'', 1)], [(''a'', 1), (''b'', 2)], [(''a'', 1), (''b'', 2), (''c'', 1)]],
      RWMutexMap.data = Some 3\<rparr>"

text \<open>A visitor that deletes, inserts and clears at every entry, and never stops.\<close>

definition example_visitor ::
  "string \<Rightarrow> int \<Rightarrow> 's \<Rightarrow> (choice \<times> (string, int) op) list \<times> bool" where
  "example_visitor k v s = ([([], OpDelete ''b''), ([], OpSet ''d'' 4), ([], OpClear)], True)"


section \<open>The order of a range loop\<close>

text \<open>
  Whatever the run time chooses, a \<^verbatim>\<open>range\<close> loop meets every entry once; and no order
  is excluded. \<^verbatim>\<open>copyMap\<close> therefore builds a map object with the entries of the old one.
\<close>

lemma mset_pick_order: "mset (pick_order c xs) = mset xs"
proof (induction c xs rule: pick_order.induct)
  case (3 c cs v va)
  let ?xs = "v # va"
  let ?i = "c mod length ?xs"
  have i: "?i < length ?xs" by simp
  have "mset ?xs = mset (take ?i ?xs @ ?xs ! ?i # drop (Suc ?i) ?xs)"
    using id_take_nth_drop [OF i] by simp
  then have split: "mset ?xs = add_mset (?xs ! ?i) (mset (take ?i ?xs @ drop (Suc ?i) ?xs))"
    by simp
  have "mset (pick_order (c # cs) ?xs)
          = add_mset (?xs ! ?i) (mset (pick_order cs (take ?i ?xs @ drop (Suc ?i) ?xs)))"
    by (simp add: Let_def)
  also have "\<dots> = add_mset (?xs ! ?i) (mset (take ?i ?xs @ drop (Suc ?i) ?xs))"
    using "3.IH" [of ?i] by simp
  finally show ?case using split by simp
qed simp_all

lemma set_pick_order: "set (pick_order c xs) = set xs"
  using mset_pick_order [of c xs] by (metis set_mset_mset)

lemma length_pick_order: "length (pick_order c xs) = length xs"
  using mset_pick_order [of c xs] by (metis size_mset)

lemma distinct_keys_pick_order:
  "distinct (map fst (pick_order c xs)) = distinct (map fst xs)"
proof -
  have "mset (map fst (pick_order c xs)) = mset (map fst xs)"
    by (simp add: mset_pick_order)
  then show ?thesis by (rule mset_eq_imp_distinct_iff)
qed

lemma map_of_pick_order:
  "distinct (map fst xs) \<Longrightarrow> map_of (pick_order c xs) = map_of xs"
  by (simp add: map_of_inject_set distinct_keys_pick_order set_pick_order)

lemma pick_order_any: "mset ys = mset xs \<Longrightarrow> \<exists>c. pick_order c xs = ys"
proof (induction ys arbitrary: xs)
  case Nil
  then show ?case by simp
next
  case (Cons y ys)
  then have "y \<in> set xs" by (metis list.set_intros(1) set_mset_mset)
  then obtain i where i: "i < length xs" "xs ! i = y" by (auto simp: in_set_conv_nth)
  then obtain v va where xs: "xs = v # va" by (cases xs) auto
  have "mset xs = add_mset y (mset (take i xs @ drop (Suc i) xs))"
    using id_take_nth_drop [OF i(1)] i(2) by (metis mset.simps(2) mset_append union_mset_add_mset_right)
  with Cons.prems have "mset ys = mset (take i xs @ drop (Suc i) xs)" by simp
  from Cons.IH [OF this] obtain c where c: "pick_order c (take i xs @ drop (Suc i) xs) = ys" ..
  have "pick_order (i # c) xs = y # ys"
    using i c unfolding xs by (simp add: Let_def)
  then show ?case ..
qed

lemma update_fresh: "k \<notin> fst ` set al \<Longrightarrow> AList.update k v al = al @ [(k, v)]"
  by (induction al) auto

lemma map_assign_last:
  "map_assign (h @ [acc]) (length h) k v = h @ [AList.update k v acc]"
  by (simp add: map_assign_def)

lemma map_delete_last:
  "map_delete (h @ [acc]) (length h) k = h @ [AList.delete k acc]"
  by (simp add: map_delete_def)

lemma fold_assign_fresh:
  "distinct (map fst (acc @ xs)) \<Longrightarrow>
   fold (\<lambda>(k, v) h. map_assign h (length h0) k v) xs (h0 @ [acc]) = h0 @ [acc @ xs]"
proof (induction xs arbitrary: acc)
  case Nil
  then show ?case by simp
next
  case (Cons x xs)
  obtain k v where x: "x = (k, v)" by (cases x)
  from Cons.prems have fresh: "k \<notin> fst ` set acc" and d: "distinct (map fst ((acc @ [(k, v)]) @ xs))"
    by (auto simp: x)
  show ?case
    using Cons.IH [OF d] by (simp add: x map_assign_last update_fresh [OF fresh])
qed

lemma copy_heap:
  assumes "p < length h" "distinct (map fst (h ! p))"
  shows "fold (\<lambda>(k, v) h'. map_assign h' (length h) k v) (range_order c (h @ [[]]) p) (h @ [[]])
         = h @ [pick_order c (h ! p)]"
proof -
  have "range_order c (h @ [[]]) p = pick_order c (h ! p)"
    using assms(1) by (simp add: range_order_def nth_append)
  moreover have "distinct (map fst ([] @ pick_order c (h ! p)))"
    using assms(2) by (simp add: distinct_keys_pick_order)
  ultimately show ?thesis using fold_assign_fresh [of "[]" "pick_order c (h ! p)" h] by simp
qed

lemma CASMap_copyMap_eq:
  assumes "p < length (CASMap.heap m)" "distinct (map fst (CASMap.heap m ! p))"
  shows "CASMap_copyMap c m p =
          (m\<lparr>CASMap.heap := CASMap.heap m @ [pick_order c (CASMap.heap m ! p)]\<rparr>,
           length (CASMap.heap m))"
  using copy_heap [OF assms] by (simp add: CASMap_copyMap_def make_map_hint_def make_map_def)

lemma RWMutexMap_copyMap_eq:
  assumes "p < length (RWMutexMap.heap m)" "distinct (map fst (RWMutexMap.heap m ! p))"
  shows "RWMutexMap_copyMap c m p =
          (m\<lparr>RWMutexMap.heap := RWMutexMap.heap m @ [pick_order c (RWMutexMap.heap m ! p)]\<rparr>,
           length (RWMutexMap.heap m))"
  using copy_heap [OF assms] by (simp add: RWMutexMap_copyMap_def make_map_hint_def make_map_def)


section \<open>Each operation in closed form\<close>

text \<open>
  On a well-formed container every operation returns, the retry loops at their first
  turn. The lemmas \<open>_eq\<close> give the result of each operation in terms of the current
  snapshot.
\<close>

lemma heap_ok_iff:
  "heap_ok h ptr \<longleftrightarrow>
     (\<exists>p. ptr = Some p \<and> p < length h) \<and> (\<forall>snap \<in> set h. distinct (map fst snap))"
  by (auto simp: heap_ok_def list_all_iff split: option.splits)

lemma heap_ok_current:
  "heap_ok h ptr \<Longrightarrow> \<exists>p. ptr = Some p \<and> p < length h \<and> h ! p = current h ptr
     \<and> distinct (map fst (current h ptr))"
  by (auto simp: heap_ok_iff current_def)

lemma heap_ok_append:
  "heap_ok h ptr \<Longrightarrow> distinct (map fst snap) \<Longrightarrow> heap_ok (h @ [snap]) (Some (length h))"
  by (auto simp: heap_ok_iff)

lemma CASMap_Set_eq:
  assumes "CASMap_wf m"
  shows "CASMap_Set c m k v =
           Inr (CASMap_publish m (AList.update k v (pick_order c (CASMap_snapshot m))))"
proof -
  from assms obtain p where p: "CASMap.data m = Some p" "p < length (CASMap.heap m)"
      "CASMap.heap m ! p = CASMap_snapshot m" "distinct (map fst (CASMap_snapshot m))"
    unfolding CASMap_wf_def CASMap_snapshot_def using heap_ok_current by blast
  show ?thesis
    apply (subst CASMap_Set.simps)
    apply (simp add: p CASMap_data_Load_def deref_def CASMap_copyMap_eq map_assign_last
        CASMap_data_CompareAndSwap_def CASMap_publish_def CASMap_install_def)
    done
qed

lemma CASMap_wf_current:
  assumes "CASMap_wf m"
  obtains p where "CASMap.data m = Some p" "p < length (CASMap.heap m)"
      "CASMap.heap m ! p = CASMap_snapshot m" "distinct (map fst (CASMap_snapshot m))"
  using assms unfolding CASMap_wf_def CASMap_snapshot_def using heap_ok_current by blast

lemma RWMutexMap_wf_current:
  assumes "RWMutexMap_wf r"
  obtains p where "RWMutexMap.data r = Some p" "p < length (RWMutexMap.heap r)"
      "RWMutexMap.heap r ! p = RWMutexMap_snapshot r"
      "distinct (map fst (RWMutexMap_snapshot r))" "\<not> mu r"
  using assms unfolding RWMutexMap_wf_def RWMutexMap_snapshot_def using heap_ok_current by blast

lemmas CASMap_step_defs =
  CASMap_data_Load_def deref_def CASMap_copyMap_eq map_assign_last map_delete_last map_index_def
  CASMap_data_CompareAndSwap_def CASMap_publish_def CASMap_install_def CASMap_load_def
  map_len_def range_order_def

lemmas RWMutexMap_step_defs =
  RWMutexMap_data_Load_def deref_def RWMutexMap_copyMap_eq map_assign_last map_delete_last
  map_index_def RWMutexMap_data_Store_def RWMutexMap_publish_def RWMutexMap_load_def
  RWMutexMap_mu_Lock_def RWMutexMap_mu_Unlock_def map_len_def range_order_def

lemma CASMap_Get_eq: "CASMap_wf m \<Longrightarrow> CASMap_Get m k = Inr (map_of (CASMap_snapshot m) k)"
  by (elim CASMap_wf_current) (simp add: CASMap_Get_def CASMap_step_defs)






lemma CASMap_Delete_eq:
  assumes "CASMap_wf m"
  shows "CASMap_Delete c m k =
           Inr (if map_of (CASMap_snapshot m) k = None then m
                else CASMap_publish m (AList.delete k (pick_order c (CASMap_snapshot m))))"
  using assms
  by (elim CASMap_wf_current, subst CASMap_Delete.simps)
     (auto simp: CASMap_step_defs split: option.splits)

lemma CASMap_Clear_eq: "CASMap_Clear m = CASMap_install m []"
  by (simp add: CASMap_Clear_def make_map_def CASMap_data_Store_def CASMap_install_def)

lemma CASMap_GetOrSet_eq:
  assumes "CASMap_wf m"
  shows "CASMap_GetOrSet c m k v =
           Inr (case map_of (CASMap_snapshot m) k of
                  Some x \<Rightarrow> ((x, True), m)
                | None \<Rightarrow>
                    ((v, False),
                     CASMap_publish m (AList.update k v (pick_order c (CASMap_snapshot m)))))"
  using assms unfolding CASMap_GetOrSet_def
  by (elim CASMap_wf_current, subst CASMap_GetOrSet_retry.simps)
     (auto simp: CASMap_step_defs split: option.splits)

lemma CASMap_SetIfAbsent_eq:
  assumes "CASMap_wf m"
  shows "CASMap_SetIfAbsent c m k v =
           Inr (case map_of (CASMap_snapshot m) k of
                  Some x \<Rightarrow> (False, m)
                | None \<Rightarrow>
                    (True,
                     CASMap_publish m (AList.update k v (pick_order c (CASMap_snapshot m)))))"
  using assms
  by (elim CASMap_wf_current, subst CASMap_SetIfAbsent.simps)
     (auto simp: CASMap_step_defs split: option.splits)

lemma CASMap_CompareAndSwap_eq:
  assumes "CASMap_wf m"
  shows "CASMap_CompareAndSwap veq c m k old new =
           (case map_of (CASMap_snapshot m) k of
              None \<Rightarrow> Inr (False, m)
            | Some x \<Rightarrow>
                (case veq x old of
                   None \<Rightarrow> Inl UncomparableType
                 | Some same \<Rightarrow>
                     Inr (if same
                          then (True, CASMap_publish m
                                        (AList.update k new (pick_order c (CASMap_snapshot m))))
                          else (False, m))))"
  using assms
  by (elim CASMap_wf_current, subst CASMap_CompareAndSwap.simps)
     (auto simp: CASMap_step_defs compare_def split: option.splits)

lemma RWMutexMap_Get_eq:
  "RWMutexMap_wf r \<Longrightarrow> RWMutexMap_Get r k = Inr (map_of (RWMutexMap_snapshot r) k)"
  by (elim RWMutexMap_wf_current) (simp add: RWMutexMap_Get_def RWMutexMap_step_defs)





lemma RWMutexMap_Set_eq:
  assumes "RWMutexMap_wf r"
  shows "RWMutexMap_Set c r k v =
           Inr (RWMutexMap_publish r (AList.update k v (pick_order c (RWMutexMap_snapshot r))))"
  using assms unfolding RWMutexMap_Set_def
  by (elim RWMutexMap_wf_current) (simp add: RWMutexMap_step_defs)

lemma RWMutexMap_Delete_eq:
  assumes "RWMutexMap_wf r"
  shows "RWMutexMap_Delete c r k =
           Inr (if map_of (RWMutexMap_snapshot r) k = None then r
                else RWMutexMap_publish r
                       (AList.delete k (pick_order c (RWMutexMap_snapshot r))))"
  using assms unfolding RWMutexMap_Delete_def
  by (elim RWMutexMap_wf_current) (auto simp: RWMutexMap_step_defs split: option.splits)

lemma RWMutexMap_Clear_eq:
  "RWMutexMap_wf r \<Longrightarrow> RWMutexMap_Clear r = Inr (RWMutexMap_publish r [])"
  unfolding RWMutexMap_Clear_def
  by (elim RWMutexMap_wf_current) (simp add: RWMutexMap_step_defs make_map_def)

lemma RWMutexMap_GetOrSet_eq:
  assumes "RWMutexMap_wf r"
  shows "RWMutexMap_GetOrSet c r k v =
           Inr (case map_of (RWMutexMap_snapshot r) k of
                  Some x \<Rightarrow> ((x, True), r)
                | None \<Rightarrow>
                    ((v, False),
                     RWMutexMap_publish r
                       (AList.update k v (pick_order c (RWMutexMap_snapshot r)))))"
  using assms unfolding RWMutexMap_GetOrSet_def
  by (elim RWMutexMap_wf_current) (auto simp: RWMutexMap_step_defs split: option.splits)

lemma RWMutexMap_SetIfAbsent_eq:
  assumes "RWMutexMap_wf r"
  shows "RWMutexMap_SetIfAbsent c r k v =
           Inr (case map_of (RWMutexMap_snapshot r) k of
                  Some x \<Rightarrow> (False, r)
                | None \<Rightarrow>
                    (True,
                     RWMutexMap_publish r
                       (AList.update k v (pick_order c (RWMutexMap_snapshot r)))))"
  using assms unfolding RWMutexMap_SetIfAbsent_def
  by (elim RWMutexMap_wf_current) (auto simp: RWMutexMap_step_defs split: option.splits)

lemma RWMutexMap_CompareAndSwap_eq:
  assumes "RWMutexMap_wf r"
  shows "RWMutexMap_CompareAndSwap veq c r k old new =
           (case map_of (RWMutexMap_snapshot r) k of
              None \<Rightarrow> Inr (False, r)
            | Some x \<Rightarrow>
                (case veq x old of
                   None \<Rightarrow> Inl UncomparableType
                 | Some same \<Rightarrow>
                     Inr (if same
                          then (True, RWMutexMap_publish r
                                        (AList.update k new
                                           (pick_order c (RWMutexMap_snapshot r))))
                          else (False, r))))"
  using assms unfolding RWMutexMap_CompareAndSwap_def
  by (elim RWMutexMap_wf_current)
     (auto simp: RWMutexMap_step_defs compare_def split: option.splits)

lemma CASMap_wf_distinct: "CASMap_wf m \<Longrightarrow> distinct (map fst (CASMap_snapshot m))"
  by (elim CASMap_wf_current)

lemma RWMutexMap_wf_distinct: "RWMutexMap_wf r \<Longrightarrow> distinct (map fst (RWMutexMap_snapshot r))"
  by (elim RWMutexMap_wf_current)

lemma CASMap_publish_sel [simp]:
  "CASMap.heap (CASMap_publish m snap) = CASMap.heap m @ [snap]"
  "CASMap.data (CASMap_publish m snap) = Some (length (CASMap.heap m))"
  "cas_calls (CASMap_publish m snap) = Suc (cas_calls m)"
  "CASMap_snapshot (CASMap_publish m snap) = snap"
  by (simp_all add: CASMap_publish_def CASMap_install_def CASMap_snapshot_def current_def)

lemma CASMap_install_sel [simp]:
  "CASMap.heap (CASMap_install m snap) = CASMap.heap m @ [snap]"
  "CASMap.data (CASMap_install m snap) = Some (length (CASMap.heap m))"
  "cas_calls (CASMap_install m snap) = cas_calls m"
  "CASMap_snapshot (CASMap_install m snap) = snap"
  by (simp_all add: CASMap_install_def CASMap_snapshot_def current_def)

lemma RWMutexMap_publish_sel [simp]:
  "RWMutexMap.heap (RWMutexMap_publish r snap) = RWMutexMap.heap r @ [snap]"
  "RWMutexMap.data (RWMutexMap_publish r snap) = Some (length (RWMutexMap.heap r))"
  "mu (RWMutexMap_publish r snap) = mu r"
  "RWMutexMap_snapshot (RWMutexMap_publish r snap) = snap"
  by (simp_all add: RWMutexMap_publish_def RWMutexMap_snapshot_def current_def)

lemma CASMap_wf_publish:
  "CASMap_wf m \<Longrightarrow> distinct (map fst snap) \<Longrightarrow> CASMap_wf (CASMap_publish m snap)"
  by (simp add: CASMap_wf_def heap_ok_append)

lemma CASMap_wf_install:
  "CASMap_wf m \<Longrightarrow> distinct (map fst snap) \<Longrightarrow> CASMap_wf (CASMap_install m snap)"
  by (simp add: CASMap_wf_def heap_ok_append)

lemma RWMutexMap_wf_publish:
  "RWMutexMap_wf r \<Longrightarrow> distinct (map fst snap) \<Longrightarrow> RWMutexMap_wf (RWMutexMap_publish r snap)"
  by (auto simp: RWMutexMap_wf_def intro: heap_ok_append)

lemma distinct_update_pick:
  "distinct (map fst snap) \<Longrightarrow> distinct (map fst (AList.update k v (pick_order c snap)))"
  by (simp add: distinct_update distinct_keys_pick_order)

lemma distinct_delete_pick:
  "distinct (map fst snap) \<Longrightarrow> distinct (map fst (AList.delete k (pick_order c snap)))"
  by (simp add: distinct_delete distinct_keys_pick_order)

lemma map_of_update_pick:
  "distinct (map fst snap) \<Longrightarrow>
   map_of (AList.update k v (pick_order c snap)) = (map_of snap)(k \<mapsto> v)"
  by (simp add: update_conv' map_of_pick_order)


lemma NewCASMap_eq: "NewCASMap = \<lparr>CASMap.heap = [[]], CASMap.data = Some 0, cas_calls = 0\<rparr>"
  by (simp add: NewCASMap_def make_map_def CASMap_data_Store_def)

lemma NewRWMutexMap_eq:
  "NewRWMutexMap = \<lparr>mu = False, RWMutexMap.heap = [[]], RWMutexMap.data = Some 0\<rparr>"
  by (simp add: NewRWMutexMap_def make_map_def RWMutexMap_data_Store_def)

lemma NewCASMap_wf: "CASMap_wf NewCASMap"
  by (simp add: NewCASMap_eq CASMap_wf_def heap_ok_def)

lemma NewRWMutexMap_wf: "RWMutexMap_wf NewRWMutexMap"
  by (simp add: NewRWMutexMap_eq RWMutexMap_wf_def heap_ok_def)

lemma NewCASMap_snapshot: "CASMap_snapshot NewCASMap = []"
  by (simp add: NewCASMap_eq CASMap_snapshot_def current_def)

lemma NewRWMutexMap_snapshot: "RWMutexMap_snapshot NewRWMutexMap = []"
  by (simp add: NewRWMutexMap_eq RWMutexMap_snapshot_def current_def)


section \<open>Value equality, calls and loops\<close>

text \<open>
  Facts about sequences of calls: they never touch a map object that exists already
  (the heap only grows at its end), which is what keeps a running \<^verbatim>\<open>Range\<close> on its
  snapshot; and they keep the two engines and the plain map in step.
\<close>

lemma comparable_go_eq: "comparable go_eq"
  by (simp add: comparable_def go_eq_def)

lemma comparableD: "comparable veq \<Longrightarrow> veq a b = Some (a = b)"
  by (simp add: comparable_def)



lemma CASMap_CompareAndSwap_no_type_fault:
  assumes "comparable veq"
  shows "CASMap_CompareAndSwap veq c m k old new \<noteq> Inl UncomparableType"
  using comparableD [OF assms]
  by (subst CASMap_CompareAndSwap.simps)
     (auto simp: CASMap_data_Load_def deref_def CASMap_data_CompareAndSwap_def
        CASMap_copyMap_def compare_def Let_def
        split: option.splits sum.splits prod.splits if_splits)

lemma RWMutexMap_CompareAndSwap_no_type_fault:
  assumes "comparable veq"
  shows "RWMutexMap_CompareAndSwap veq c r k old new \<noteq> Inl UncomparableType"
  using comparableD [OF assms]
  by (auto simp: RWMutexMap_CompareAndSwap_def RWMutexMap_mu_Lock_def RWMutexMap_load_def
        deref_def compare_def Let_def
        split: option.splits sum.splits prod.splits if_splits)

lemma stops_at_first_false_stop: "stops_at_first_false n [False]"
  by (simp add: stops_at_first_false_def)

lemma stops_at_first_false_go:
  "stops_at_first_false n bs \<Longrightarrow> stops_at_first_false (Suc n) (True # bs)"
  by (cases bs) (auto simp: stops_at_first_false_def)

lemma range_loop_isolated:
  fixes hp :: "'s \<Rightarrow> ('k, 'v) heap"
  assumes step: "\<And>k v s. I s \<Longrightarrow> \<exists>b s'. f k v s = Inr (b, s') \<and> I s' \<and> Q k v b"
    and frame: "\<And>s. I s \<Longrightarrow> hp s ! p = snap"
    and snap: "distinct (map fst snap)"
    and es: "set es \<subseteq> set snap"
    and start: "I s"
  shows "\<exists>log s'. range_loop hp f p (map fst es) s = Inr (log, s') \<and> I s'
           \<and> prefix (visited log) es \<and> stops_at_first_false (length es) (answers log)
           \<and> list_all (\<lambda>(k, v, b). Q k v b) log"
  using es start
proof (induction es arbitrary: s)
  case Nil
  then show ?case by (simp add: visited_def answers_def stops_at_first_false_def)
next
  case (Cons e es)
  obtain k v where e: "e = (k, v)" by (cases e)
  from Cons.prems(1) have "(k, v) \<in> set snap" by (simp add: e)
  then have look: "map_index (hp s) p k = Some v"
    using snap frame [OF Cons.prems(2)] by (simp add: map_index_def map_of_is_SomeI)
  from step [OF Cons.prems(2)] obtain b s1 where
    f: "f k v s = Inr (b, s1)" and s1: "I s1" and q: "Q k v b"
    by blast
  show ?case
  proof (cases b)
    case False
    then show ?thesis
      using look f s1 q
      by (simp add: e visited_def answers_def stops_at_first_false_stop)
  next
    case True
    from Cons.prems(1) have "set es \<subseteq> set snap" by simp
    from Cons.IH [OF this s1] obtain log s2 where
      rest: "range_loop hp f p (map fst es) s1 = Inr (log, s2)" "I s2"
        "prefix (visited log) es" "stops_at_first_false (length es) (answers log)"
        "list_all (\<lambda>(k, v, b). Q k v b) log"
      by blast
    have "range_loop hp f p (map fst (e # es)) s = Inr ((k, v, True) # log, s2)"
      using look f True rest(1) by (simp add: e)
    moreover have "prefix (visited ((k, v, True) # log)) (e # es)"
      using rest(3) by (simp add: e visited_def)
    moreover have "stops_at_first_false (length (e # es)) (answers ((k, v, True) # log))"
      using stops_at_first_false_go [OF rest(4)] by (simp add: answers_def)
    moreover have "list_all (\<lambda>(k, v, b). Q k v b) ((k, v, True) # log)"
      using rest(5) q True by simp
    ultimately show ?thesis using rest(2) by blast
  qed
qed


lemma CASMap_call_frame:
  assumes "comparable veq" and "CASMap_wf m"
  shows "\<exists>x m'. CASMap_call veq c call m = Inr (x, m') \<and> CASMap_wf m'
           \<and> prefix (CASMap.heap m) (CASMap.heap m')"
proof -
  note eq = comparableD [OF assms(1)]
  have d: "distinct (map fst (CASMap_snapshot m))" using assms(2) by (rule CASMap_wf_distinct)
  note facts = CASMap_wf_publish CASMap_wf_install distinct_update_pick distinct_delete_pick
  show ?thesis
  proof (cases call)
    case (OpSet k v)
    then show ?thesis using assms(2) d by (simp add: CASMap_Set_eq facts)
  next
    case (OpDelete k)
    then show ?thesis using assms(2) d by (simp add: CASMap_Delete_eq facts)
  next
    case OpClear
    then show ?thesis using assms(2) by (simp add: CASMap_Clear_eq facts)
  next
    case (OpGetOrSet k v)
    then show ?thesis
      using assms(2) d by (simp add: CASMap_GetOrSet_eq facts split: option.splits)
  next
    case (OpSetIfAbsent k v)
    then show ?thesis
      using assms(2) d by (simp add: CASMap_SetIfAbsent_eq facts split: option.splits)
  next
    case (OpCompareAndSwap k old new)
    then show ?thesis
      using assms(2) d by (simp add: CASMap_CompareAndSwap_eq eq facts split: option.splits)
  qed
qed

lemma RWMutexMap_call_frame:
  assumes "comparable veq" and "RWMutexMap_wf r"
  shows "\<exists>x r'. RWMutexMap_call veq c call r = Inr (x, r') \<and> RWMutexMap_wf r'
           \<and> prefix (RWMutexMap.heap r) (RWMutexMap.heap r')"
proof -
  note eq = comparableD [OF assms(1)]
  have d: "distinct (map fst (RWMutexMap_snapshot r))"
    using assms(2) by (rule RWMutexMap_wf_distinct)
  note facts = RWMutexMap_wf_publish distinct_update_pick distinct_delete_pick
  show ?thesis
  proof (cases call)
    case (OpSet k v)
    then show ?thesis using assms(2) d by (simp add: RWMutexMap_Set_eq facts)
  next
    case (OpDelete k)
    then show ?thesis using assms(2) d by (simp add: RWMutexMap_Delete_eq facts)
  next
    case OpClear
    then show ?thesis using assms(2) by (simp add: RWMutexMap_Clear_eq facts)
  next
    case (OpGetOrSet k v)
    then show ?thesis
      using assms(2) d by (simp add: RWMutexMap_GetOrSet_eq facts split: option.splits)
  next
    case (OpSetIfAbsent k v)
    then show ?thesis
      using assms(2) d by (simp add: RWMutexMap_SetIfAbsent_eq facts split: option.splits)
  next
    case (OpCompareAndSwap k old new)
    then show ?thesis
      using assms(2) d
      by (simp add: RWMutexMap_CompareAndSwap_eq eq facts split: option.splits)
  qed
qed

lemma CASMap_run_frame:
  assumes "comparable veq" and "CASMap_wf m"
  shows "\<exists>xs m'. CASMap_run veq calls m = Inr (xs, m') \<and> CASMap_wf m'
           \<and> prefix (CASMap.heap m) (CASMap.heap m')"
  using assms(2)
proof (induction calls arbitrary: m)
  case Nil
  then show ?case by simp
next
  case (Cons a calls)
  obtain c call where a: "a = (c, call)" by (cases a)
  from CASMap_call_frame [OF assms(1) Cons.prems, of c call] obtain x m1 where
    one: "CASMap_call veq c call m = Inr (x, m1)" "CASMap_wf m1"
      "prefix (CASMap.heap m) (CASMap.heap m1)"
    by blast
  from Cons.IH [OF one(2)] obtain xs m2 where
    rest: "CASMap_run veq calls m1 = Inr (xs, m2)" "CASMap_wf m2"
      "prefix (CASMap.heap m1) (CASMap.heap m2)"
    by blast
  have "prefix (CASMap.heap m) (CASMap.heap m2)" using one(3) rest(3) by (rule prefix_order.trans)
  then show ?case using one(1) rest(1,2) by (simp add: a)
qed

lemma RWMutexMap_run_frame:
  assumes "comparable veq" and "RWMutexMap_wf r"
  shows "\<exists>xs r'. RWMutexMap_run veq calls r = Inr (xs, r') \<and> RWMutexMap_wf r'
           \<and> prefix (RWMutexMap.heap r) (RWMutexMap.heap r')"
  using assms(2)
proof (induction calls arbitrary: r)
  case Nil
  then show ?case by simp
next
  case (Cons a calls)
  obtain c call where a: "a = (c, call)" by (cases a)
  from RWMutexMap_call_frame [OF assms(1) Cons.prems, of c call] obtain x r1 where
    one: "RWMutexMap_call veq c call r = Inr (x, r1)" "RWMutexMap_wf r1"
      "prefix (RWMutexMap.heap r) (RWMutexMap.heap r1)"
    by blast
  from Cons.IH [OF one(2)] obtain xs r2 where
    rest: "RWMutexMap_run veq calls r1 = Inr (xs, r2)" "RWMutexMap_wf r2"
      "prefix (RWMutexMap.heap r1) (RWMutexMap.heap r2)"
    by blast
  have "prefix (RWMutexMap.heap r) (RWMutexMap.heap r2)"
    using one(3) rest(3) by (rule prefix_order.trans)
  then show ?case using one(1) rest(1,2) by (simp add: a)
qed

lemma prefix_nth: "prefix h0 h \<Longrightarrow> p < length h0 \<Longrightarrow> h ! p = h0 ! p"
  by (auto simp: prefix_def nth_append)

lemma prefix_distinct_keys:
  "prefix xs ys \<Longrightarrow> distinct (map fst ys) \<Longrightarrow> distinct (map fst xs)"
  by (auto simp: prefix_def)

lemma CASMap_Range_isolated:
  assumes "comparable veq" and "CASMap_wf m"
  shows "\<exists>log m'. CASMap_Range c (CASMap_visitor veq g) m = Inr (log, m') \<and> CASMap_wf m'
           \<and> prefix (visited log) (pick_order c (CASMap_snapshot m))
           \<and> stops_at_first_false (length (CASMap_snapshot m)) (answers log)
           \<and> list_all (\<lambda>(k, v, b). \<exists>s. b = snd (g k v s)) log"
proof -
  let ?snap = "CASMap_snapshot m"
  let ?I = "\<lambda>s. CASMap_wf s \<and> prefix (CASMap.heap m) (CASMap.heap s)"
  from assms(2) obtain p where
    p: "CASMap.data m = Some p" "p < length (CASMap.heap m)" "CASMap.heap m ! p = ?snap"
      "distinct (map fst ?snap)"
    by (rule CASMap_wf_current)
  have step: "\<exists>b s'. CASMap_visitor veq g k v s = Inr (b, s') \<and> ?I s' \<and> (\<exists>s0. b = snd (g k v s0))"
    if "?I s" for k v s
  proof -
    obtain calls continue where g: "g k v s = (calls, continue)" by (cases "g k v s")
    from that have "CASMap_wf s" ..
    from CASMap_run_frame [OF assms(1) this, of calls] obtain xs s' where
      run: "CASMap_run veq calls s = Inr (xs, s')" "CASMap_wf s'"
        "prefix (CASMap.heap s) (CASMap.heap s')"
      by blast
    have "prefix (CASMap.heap m) (CASMap.heap s')"
      using that run(3) by (blast intro: prefix_order.trans)
    moreover have "\<exists>s0. continue = snd (g k v s0)" by (rule exI [of _ s]) (simp add: g)
    ultimately show ?thesis using run(1,2) by (auto simp: CASMap_visitor_def g)
  qed
  have frame: "CASMap.heap s ! p = ?snap" if "?I s" for s
    using that p(2,3) prefix_nth [of "CASMap.heap m" "CASMap.heap s" p] by simp
  have "set (pick_order c ?snap) \<subseteq> set ?snap" by (simp add: set_pick_order)
  from range_loop_isolated [of ?I "CASMap_visitor veq g" "\<lambda>k v b. \<exists>s0. b = snd (g k v s0)"
      CASMap.heap p ?snap, OF step frame p(4) this, of m] assms(2)
  obtain log m' where
    "range_loop CASMap.heap (CASMap_visitor veq g) p (map fst (pick_order c ?snap)) m
       = Inr (log, m')"
    "CASMap_wf m'" "prefix (visited log) (pick_order c ?snap)"
    "stops_at_first_false (length ?snap) (answers log)"
    "list_all (\<lambda>(k, v, b). \<exists>s. b = snd (g k v s)) log"
    by (auto simp: length_pick_order)
  moreover have "CASMap_Range c (CASMap_visitor veq g) m
       = range_loop CASMap.heap (CASMap_visitor veq g) p (map fst (pick_order c ?snap)) m"
    using p by (simp add: CASMap_Range_def CASMap_step_defs)
  ultimately show ?thesis by auto
qed

lemma RWMutexMap_Range_isolated:
  assumes "comparable veq" and "RWMutexMap_wf r"
  shows "\<exists>log r'. RWMutexMap_Range c (RWMutexMap_visitor veq g) r = Inr (log, r')
           \<and> RWMutexMap_wf r'
           \<and> prefix (visited log) (pick_order c (RWMutexMap_snapshot r))
           \<and> stops_at_first_false (length (RWMutexMap_snapshot r)) (answers log)
           \<and> list_all (\<lambda>(k, v, b). \<exists>s. b = snd (g k v s)) log"
proof -
  let ?snap = "RWMutexMap_snapshot r"
  let ?I = "\<lambda>s. RWMutexMap_wf s \<and> prefix (RWMutexMap.heap r) (RWMutexMap.heap s)"
  from assms(2) obtain p where
    p: "RWMutexMap.data r = Some p" "p < length (RWMutexMap.heap r)"
      "RWMutexMap.heap r ! p = ?snap" "distinct (map fst ?snap)"
    by (rule RWMutexMap_wf_current)
  have step: "\<exists>b s'. RWMutexMap_visitor veq g k v s = Inr (b, s') \<and> ?I s'
                \<and> (\<exists>s0. b = snd (g k v s0))"
    if "?I s" for k v s
  proof -
    obtain calls continue where g: "g k v s = (calls, continue)" by (cases "g k v s")
    from that have "RWMutexMap_wf s" ..
    from RWMutexMap_run_frame [OF assms(1) this, of calls] obtain xs s' where
      run: "RWMutexMap_run veq calls s = Inr (xs, s')" "RWMutexMap_wf s'"
        "prefix (RWMutexMap.heap s) (RWMutexMap.heap s')"
      by blast
    have "prefix (RWMutexMap.heap r) (RWMutexMap.heap s')"
      using that run(3) by (blast intro: prefix_order.trans)
    moreover have "\<exists>s0. continue = snd (g k v s0)" by (rule exI [of _ s]) (simp add: g)
    ultimately show ?thesis using run(1,2) by (auto simp: RWMutexMap_visitor_def g)
  qed
  have frame: "RWMutexMap.heap s ! p = ?snap" if "?I s" for s
    using that p(2,3) prefix_nth [of "RWMutexMap.heap r" "RWMutexMap.heap s" p] by simp
  have "set (pick_order c ?snap) \<subseteq> set ?snap" by (simp add: set_pick_order)
  from range_loop_isolated [of ?I "RWMutexMap_visitor veq g"
      "\<lambda>k v b. \<exists>s0. b = snd (g k v s0)" RWMutexMap.heap p ?snap, OF step frame p(4) this, of r]
    assms(2)
  obtain log r' where
    "range_loop RWMutexMap.heap (RWMutexMap_visitor veq g) p (map fst (pick_order c ?snap)) r
       = Inr (log, r')"
    "RWMutexMap_wf r'" "prefix (visited log) (pick_order c ?snap)"
    "stops_at_first_false (length ?snap) (answers log)"
    "list_all (\<lambda>(k, v, b). \<exists>s. b = snd (g k v s)) log"
    by (auto simp: length_pick_order)
  moreover have "RWMutexMap_Range c (RWMutexMap_visitor veq g) r
       = range_loop RWMutexMap.heap (RWMutexMap_visitor veq g) p
           (map fst (pick_order c ?snap)) r"
    using p by (simp add: RWMutexMap_Range_def RWMutexMap_step_defs)
  ultimately show ?thesis by auto
qed

lemma visits_all_when_never_stopped:
  assumes "prefix (visited log) es" and "stops_at_first_false (length es) (answers log)"
    and "list_all (\<lambda>(k, v, b). b) log"
  shows "visited log = es"
proof -
  have all: "\<forall>b \<in> set (answers log). b"
    using assms(3) by (auto simp: answers_def list_all_iff)
  have "\<not> length (answers log) < length es"
  proof
    assume short: "length (answers log) < length es"
    with assms(2) have "answers log \<noteq> []" "\<not> last (answers log)"
      by (simp_all add: stops_at_first_false_def)
    then show False using all last_in_set by blast
  qed
  then have "length es \<le> length (visited log)" by (simp add: answers_def visited_def)
  with assms(1) show ?thesis by (auto simp: prefix_def)
qed













section \<open>Well-formedness is kept by every call\<close>

lemma NewCASMapWithCapacity_eq: "NewCASMapWithCapacity n = NewCASMap"
  by (simp add: NewCASMapWithCapacity_def NewCASMap_def make_map_hint_def)

lemma NewRWMutexMapWithCapacity_eq: "NewRWMutexMapWithCapacity n = NewRWMutexMap"
  by (simp add: NewRWMutexMapWithCapacity_def NewRWMutexMap_def make_map_hint_def)

lemma CASMap_call_wf:
  assumes "CASMap_wf m" and "CASMap_call veq c call m = Inr (x, m')"
  shows "CASMap_wf m'"
proof -
  have d: "distinct (map fst (CASMap_snapshot m))" using assms(1) by (rule CASMap_wf_distinct)
  note facts = CASMap_wf_publish CASMap_wf_install distinct_update_pick distinct_delete_pick
  show ?thesis
  proof (cases call)
    case (OpSet k v)
    then show ?thesis using assms d by (auto simp: CASMap_Set_eq facts)
  next
    case (OpDelete k)
    then show ?thesis using assms d by (auto simp: CASMap_Delete_eq facts split: if_splits)
  next
    case OpClear
    then show ?thesis using assms by (auto simp: CASMap_Clear_eq facts)
  next
    case (OpGetOrSet k v)
    then show ?thesis
      using assms d by (auto simp: CASMap_GetOrSet_eq facts split: option.splits)
  next
    case (OpSetIfAbsent k v)
    then show ?thesis
      using assms d by (auto simp: CASMap_SetIfAbsent_eq facts split: option.splits)
  next
    case (OpCompareAndSwap k old new)
    then show ?thesis
      using assms d
      by (auto simp: CASMap_CompareAndSwap_eq facts split: option.splits if_splits)
  qed
qed

lemma RWMutexMap_call_wf:
  assumes "RWMutexMap_wf r" and "RWMutexMap_call veq c call r = Inr (x, r')"
  shows "RWMutexMap_wf r'"
proof -
  have d: "distinct (map fst (RWMutexMap_snapshot r))"
    using assms(1) by (rule RWMutexMap_wf_distinct)
  note facts = RWMutexMap_wf_publish distinct_update_pick distinct_delete_pick
  show ?thesis
  proof (cases call)
    case (OpSet k v)
    then show ?thesis using assms d by (auto simp: RWMutexMap_Set_eq facts)
  next
    case (OpDelete k)
    then show ?thesis using assms d by (auto simp: RWMutexMap_Delete_eq facts split: if_splits)
  next
    case OpClear
    then show ?thesis using assms by (auto simp: RWMutexMap_Clear_eq facts)
  next
    case (OpGetOrSet k v)
    then show ?thesis
      using assms d by (auto simp: RWMutexMap_GetOrSet_eq facts split: option.splits)
  next
    case (OpSetIfAbsent k v)
    then show ?thesis
      using assms d by (auto simp: RWMutexMap_SetIfAbsent_eq facts split: option.splits)
  next
    case (OpCompareAndSwap k old new)
    then show ?thesis
      using assms d
      by (auto simp: RWMutexMap_CompareAndSwap_eq facts split: option.splits if_splits)
  qed
qed

lemma CASMap_run_wf:
  "CASMap_wf m \<Longrightarrow> CASMap_run veq calls m = Inr (xs, m') \<Longrightarrow> CASMap_wf m'"
proof (induction calls arbitrary: m xs)
  case Nil
  then show ?case by simp
next
  case (Cons a calls)
  obtain c call where a: "a = (c, call)" by (cases a)
  from Cons.prems(2) obtain x m1 ys where
    one: "CASMap_call veq c call m = Inr (x, m1)" and
    rest: "CASMap_run veq calls m1 = Inr (ys, m')"
    by (auto simp: a split: sum.splits)
  from Cons.prems(1) one have "CASMap_wf m1" by (rule CASMap_call_wf)
  then show ?case using rest by (rule Cons.IH)
qed

lemma RWMutexMap_run_wf:
  "RWMutexMap_wf r \<Longrightarrow> RWMutexMap_run veq calls r = Inr (xs, r') \<Longrightarrow> RWMutexMap_wf r'"
proof (induction calls arbitrary: r xs)
  case Nil
  then show ?case by simp
next
  case (Cons a calls)
  obtain c call where a: "a = (c, call)" by (cases a)
  from Cons.prems(2) obtain x r1 ys where
    one: "RWMutexMap_call veq c call r = Inr (x, r1)" and
    rest: "RWMutexMap_run veq calls r1 = Inr (ys, r')"
    by (auto simp: a split: sum.splits)
  from Cons.prems(1) one have "RWMutexMap_wf r1" by (rule RWMutexMap_call_wf)
  then show ?case using rest by (rule Cons.IH)
qed

text \<open>
  So the hypotheses \<open>CASMap_wf\<close> and \<open>RWMutexMap_wf\<close> of the theorems below hold of every
  container a single caller can have: one made by a constructor and used through
  calls that returned.
\<close>

lemma CASMap_reachable_wf:
  "CASMap_run veq calls (NewCASMapWithCapacity n) = Inr (xs, m) \<Longrightarrow> CASMap_wf m"
  using CASMap_run_wf [OF NewCASMap_wf] by (simp add: NewCASMapWithCapacity_eq)

lemma RWMutexMap_reachable_wf:
  "RWMutexMap_run veq calls (NewRWMutexMapWithCapacity n) = Inr (xs, r) \<Longrightarrow> RWMutexMap_wf r"
  using RWMutexMap_run_wf [OF NewRWMutexMap_wf] by (simp add: NewRWMutexMapWithCapacity_eq)


section \<open>The example containers\<close>

lemma example_CASMap_wf: "CASMap_wf example_CASMap"
  by (simp add: example_CASMap_def CASMap_wf_def heap_ok_def)

lemma example_RWMutexMap_wf: "RWMutexMap_wf example_RWMutexMap"
  by (simp add: example_RWMutexMap_def RWMutexMap_wf_def heap_ok_def)

lemma example_CASMap_snapshot:
  "CASMap_snapshot example_CASMap = [(''a'', 1), (''b'', 2), (''c'', 1)]"
  by (simp add: example_CASMap_def CASMap_snapshot_def current_def)

lemma example_RWMutexMap_snapshot:
  "RWMutexMap_snapshot example_RWMutexMap = [(''a'', 1), (''b'', 2), (''c'', 1)]"
  by (simp add: example_RWMutexMap_def RWMutexMap_snapshot_def current_def)

lemma example_CASMap_Get:
  "CASMap_Get example_CASMap k = Inr (map_of [(''a'', 1), (''b'', 2), (''c'', 1)] k)"
  by (simp add: CASMap_Get_eq example_CASMap_wf example_CASMap_snapshot)

lemma example_RWMutexMap_Get:
  "RWMutexMap_Get example_RWMutexMap k = Inr (map_of [(''a'', 1), (''b'', 2), (''c'', 1)] k)"
  by (simp add: RWMutexMap_Get_eq example_RWMutexMap_wf example_RWMutexMap_snapshot)

lemma example_CASMap_reached:
  "CASMap_run veq [([], OpSet ''a'' 1), ([], OpSet ''b'' 2), ([], OpSet ''c'' 1)] NewCASMap
     = Inr ([RetNone, RetNone, RetNone], example_CASMap)"
proof -
  let ?m1 = "CASMap_publish NewCASMap [(''a'', 1::int)]"
  let ?m2 = "CASMap_publish ?m1 [(''a'', 1), (''b'', 2)]"
  let ?m3 = "CASMap_publish ?m2 [(''a'', 1), (''b'', 2), (''c'', 1)]"
  have w1: "CASMap_wf ?m1" by (simp add: CASMap_wf_publish NewCASMap_wf)
  have w2: "CASMap_wf ?m2" by (simp add: CASMap_wf_publish w1)
  have "CASMap_Set [] NewCASMap ''a'' (1::int) = Inr ?m1"
    by (simp add: CASMap_Set_eq NewCASMap_wf NewCASMap_snapshot)
  moreover have "CASMap_Set [] ?m1 ''b'' 2 = Inr ?m2" by (simp add: CASMap_Set_eq w1)
  moreover have "CASMap_Set [] ?m2 ''c'' 1 = Inr ?m3" by (simp add: CASMap_Set_eq w2)
  moreover have "?m3 = example_CASMap"
    by (simp add: CASMap_publish_def CASMap_install_def NewCASMap_eq example_CASMap_def)
  ultimately show ?thesis by simp
qed

lemma example_RWMutexMap_reached:
  "RWMutexMap_run veq [([], OpSet ''a'' 1), ([], OpSet ''b'' 2), ([], OpSet ''c'' 1)]
     NewRWMutexMap
     = Inr ([RetNone, RetNone, RetNone], example_RWMutexMap)"
proof -
  let ?r1 = "RWMutexMap_publish NewRWMutexMap [(''a'', 1::int)]"
  let ?r2 = "RWMutexMap_publish ?r1 [(''a'', 1), (''b'', 2)]"
  let ?r3 = "RWMutexMap_publish ?r2 [(''a'', 1), (''b'', 2), (''c'', 1)]"
  have w1: "RWMutexMap_wf ?r1" by (simp add: RWMutexMap_wf_publish NewRWMutexMap_wf)
  have w2: "RWMutexMap_wf ?r2" by (simp add: RWMutexMap_wf_publish w1)
  have "RWMutexMap_Set [] NewRWMutexMap ''a'' (1::int) = Inr ?r1"
    by (simp add: RWMutexMap_Set_eq NewRWMutexMap_wf NewRWMutexMap_snapshot)
  moreover have "RWMutexMap_Set [] ?r1 ''b'' 2 = Inr ?r2" by (simp add: RWMutexMap_Set_eq w1)
  moreover have "RWMutexMap_Set [] ?r2 ''c'' 1 = Inr ?r3" by (simp add: RWMutexMap_Set_eq w2)
  moreover have "?r3 = example_RWMutexMap"
    by (simp add: RWMutexMap_publish_def NewRWMutexMap_eq example_RWMutexMap_def)
  ultimately show ?thesis by simp
qed


section \<open>The claims\<close>

subsection \<open>C1\<close>




subsection \<open>C2\<close>

text \<open>
  C2. \<^verbatim>\<open>CompareAndSwap(k, old, new)\<close> on either engine, for a value type with equality:
  \<^verbatim>\<open>false\<close> when \<open>k\<close> is absent; \<^verbatim>\<open>false\<close> when \<open>k\<close> is present with a value other than
  \<open>old\<close>, whatever \<open>new\<close> is (also \<open>new = old\<close>); \<^verbatim>\<open>true\<close> when the stored value is \<open>old\<close>,
  and then \<^verbatim>\<open>Get(k)\<close> returns \<^verbatim>\<open>(new, true)\<close>. Scenario B: after \<^verbatim>\<open>Set("a", 1)\<close>,
  \<^verbatim>\<open>CompareAndSwap("a", 1, 2)\<close> is \<^verbatim>\<open>true\<close>, \<^verbatim>\<open>CompareAndSwap("a", 1, 3)\<close> is \<^verbatim>\<open>false\<close> and
  \<^verbatim>\<open>Get("a")\<close> is \<^verbatim>\<open>(2, true)\<close>.
\<close>

theorem CompareAndSwap_table:
  assumes "comparable veq" and "CASMap_wf m" and "RWMutexMap_wf r"
  shows "(CASMap_Get m k = Inr None \<longrightarrow>
            (\<exists>m'. CASMap_CompareAndSwap veq c m k old new = Inr (False, m')))
       \<and> (\<forall>x. CASMap_Get m k = Inr (Some x) \<and> x \<noteq> old \<longrightarrow>
              (\<exists>m'. CASMap_CompareAndSwap veq c m k old new = Inr (False, m'))
            \<and> (\<exists>m'. CASMap_CompareAndSwap veq c m k old old = Inr (False, m')))
       \<and> (CASMap_Get m k = Inr (Some old) \<longrightarrow>
            (\<exists>m'. CASMap_CompareAndSwap veq c m k old new = Inr (True, m')
               \<and> CASMap_Get m' k = Inr (Some new)))
       \<and> (RWMutexMap_Get r k = Inr None \<longrightarrow>
            (\<exists>r'. RWMutexMap_CompareAndSwap veq c r k old new = Inr (False, r')))
       \<and> (\<forall>x. RWMutexMap_Get r k = Inr (Some x) \<and> x \<noteq> old \<longrightarrow>
              (\<exists>r'. RWMutexMap_CompareAndSwap veq c r k old new = Inr (False, r'))
            \<and> (\<exists>r'. RWMutexMap_CompareAndSwap veq c r k old old = Inr (False, r')))
       \<and> (RWMutexMap_Get r k = Inr (Some old) \<longrightarrow>
            (\<exists>r'. RWMutexMap_CompareAndSwap veq c r k old new = Inr (True, r')
               \<and> RWMutexMap_Get r' k = Inr (Some new)))
       \<and> (\<exists>m1 m2 m3. CASMap_Set c1 NewCASMap ''a'' (1::int) = Inr m1
              \<and> CASMap_CompareAndSwap go_eq c2 m1 ''a'' 1 2 = Inr (True, m2)
              \<and> CASMap_CompareAndSwap go_eq c3 m2 ''a'' 1 3 = Inr (False, m3)
              \<and> CASMap_Get m3 ''a'' = Inr (Some 2))
       \<and> (\<exists>r1 r2 r3. RWMutexMap_Set c1 NewRWMutexMap ''a'' (1::int) = Inr r1
              \<and> RWMutexMap_CompareAndSwap go_eq c2 r1 ''a'' 1 2 = Inr (True, r2)
              \<and> RWMutexMap_CompareAndSwap go_eq c3 r2 ''a'' 1 3 = Inr (False, r3)
              \<and> RWMutexMap_Get r3 ''a'' = Inr (Some 2))"
proof (intro conjI)
  note eq = comparableD [OF assms(1)]
  have dm: "distinct (map fst (CASMap_snapshot m))" using assms(2) by (rule CASMap_wf_distinct)
  have dr: "distinct (map fst (RWMutexMap_snapshot r))"
    using assms(3) by (rule RWMutexMap_wf_distinct)
  show "CASMap_Get m k = Inr None \<longrightarrow>
            (\<exists>m'. CASMap_CompareAndSwap veq c m k old new = Inr (False, m'))"
    using assms(2) by (simp add: CASMap_Get_eq CASMap_CompareAndSwap_eq)
  show "\<forall>x. CASMap_Get m k = Inr (Some x) \<and> x \<noteq> old \<longrightarrow>
              (\<exists>m'. CASMap_CompareAndSwap veq c m k old new = Inr (False, m'))
            \<and> (\<exists>m'. CASMap_CompareAndSwap veq c m k old old = Inr (False, m'))"
    using assms(2) by (simp add: CASMap_Get_eq CASMap_CompareAndSwap_eq eq)
  show "CASMap_Get m k = Inr (Some old) \<longrightarrow>
            (\<exists>m'. CASMap_CompareAndSwap veq c m k old new = Inr (True, m')
               \<and> CASMap_Get m' k = Inr (Some new))"
    using assms(2) dm
    by (simp add: CASMap_Get_eq CASMap_CompareAndSwap_eq eq CASMap_wf_publish
        distinct_update_pick map_of_update_pick)
  show "RWMutexMap_Get r k = Inr None \<longrightarrow>
            (\<exists>r'. RWMutexMap_CompareAndSwap veq c r k old new = Inr (False, r'))"
    using assms(3) by (simp add: RWMutexMap_Get_eq RWMutexMap_CompareAndSwap_eq)
  show "\<forall>x. RWMutexMap_Get r k = Inr (Some x) \<and> x \<noteq> old \<longrightarrow>
              (\<exists>r'. RWMutexMap_CompareAndSwap veq c r k old new = Inr (False, r'))
            \<and> (\<exists>r'. RWMutexMap_CompareAndSwap veq c r k old old = Inr (False, r'))"
    using assms(3) by (simp add: RWMutexMap_Get_eq RWMutexMap_CompareAndSwap_eq eq)
  show "RWMutexMap_Get r k = Inr (Some old) \<longrightarrow>
            (\<exists>r'. RWMutexMap_CompareAndSwap veq c r k old new = Inr (True, r')
               \<and> RWMutexMap_Get r' k = Inr (Some new))"
    using assms(3) dr
    by (simp add: RWMutexMap_Get_eq RWMutexMap_CompareAndSwap_eq eq RWMutexMap_wf_publish
        distinct_update_pick map_of_update_pick)
next
  let ?m1 = "CASMap_publish NewCASMap [(''a'', 1::int)]"
  let ?m2 = "CASMap_publish ?m1 (AList.update ''a'' 2 (pick_order c2 [(''a'', 1::int)]))"
  have s1: "CASMap_Set c1 NewCASMap ''a'' (1::int) = Inr ?m1"
    by (simp add: CASMap_Set_eq NewCASMap_wf NewCASMap_snapshot)
  have w1: "CASMap_wf ?m1" by (simp add: CASMap_wf_publish NewCASMap_wf)
  have w2: "CASMap_wf ?m2" by (simp add: CASMap_wf_publish w1 distinct_update_pick)
  have snap2: "map_of (CASMap_snapshot ?m2) ''a'' = Some 2"
    by (simp add: map_of_update_pick)
  have s2: "CASMap_CompareAndSwap go_eq c2 ?m1 ''a'' 1 2 = Inr (True, ?m2)"
    by (simp add: CASMap_CompareAndSwap_eq [OF w1] go_eq_def)
  have s3: "CASMap_CompareAndSwap go_eq c3 ?m2 ''a'' 1 3 = Inr (False, ?m2)"
    unfolding CASMap_CompareAndSwap_eq [OF w2] snap2 by (simp add: go_eq_def)
  have "CASMap_Get ?m2 ''a'' = Inr (Some 2)"
    unfolding CASMap_Get_eq [OF w2] snap2 ..
  with s1 s2 s3
  show "\<exists>m1 m2 m3. CASMap_Set c1 NewCASMap ''a'' (1::int) = Inr m1
              \<and> CASMap_CompareAndSwap go_eq c2 m1 ''a'' 1 2 = Inr (True, m2)
              \<and> CASMap_CompareAndSwap go_eq c3 m2 ''a'' 1 3 = Inr (False, m3)
              \<and> CASMap_Get m3 ''a'' = Inr (Some 2)"
    by blast
next
  let ?r1 = "RWMutexMap_publish NewRWMutexMap [(''a'', 1::int)]"
  let ?r2 = "RWMutexMap_publish ?r1 (AList.update ''a'' 2 (pick_order c2 [(''a'', 1::int)]))"
  have s1: "RWMutexMap_Set c1 NewRWMutexMap ''a'' (1::int) = Inr ?r1"
    by (simp add: RWMutexMap_Set_eq NewRWMutexMap_wf NewRWMutexMap_snapshot)
  have w1: "RWMutexMap_wf ?r1" by (simp add: RWMutexMap_wf_publish NewRWMutexMap_wf)
  have w2: "RWMutexMap_wf ?r2" by (simp add: RWMutexMap_wf_publish w1 distinct_update_pick)
  have snap2: "map_of (RWMutexMap_snapshot ?r2) ''a'' = Some 2"
    by (simp add: map_of_update_pick)
  have s2: "RWMutexMap_CompareAndSwap go_eq c2 ?r1 ''a'' 1 2 = Inr (True, ?r2)"
    by (simp add: RWMutexMap_CompareAndSwap_eq [OF w1] go_eq_def)
  have s3: "RWMutexMap_CompareAndSwap go_eq c3 ?r2 ''a'' 1 3 = Inr (False, ?r2)"
    unfolding RWMutexMap_CompareAndSwap_eq [OF w2] snap2 by (simp add: go_eq_def)
  have "RWMutexMap_Get ?r2 ''a'' = Inr (Some 2)"
    unfolding RWMutexMap_Get_eq [OF w2] snap2 ..
  with s1 s2 s3
  show "\<exists>r1 r2 r3. RWMutexMap_Set c1 NewRWMutexMap ''a'' (1::int) = Inr r1
              \<and> RWMutexMap_CompareAndSwap go_eq c2 r1 ''a'' 1 2 = Inr (True, r2)
              \<and> RWMutexMap_CompareAndSwap go_eq c3 r2 ''a'' 1 3 = Inr (False, r3)
              \<and> RWMutexMap_Get r3 ''a'' = Inr (Some 2)"
    by blast
qed

theorem CompareAndSwap_table_witness:
  "comparable (go_eq :: int iface_eq)
   \<and> CASMap_wf example_CASMap \<and> RWMutexMap_wf example_RWMutexMap
   \<and> (\<exists>m'. CASMap_CompareAndSwap go_eq [1] example_CASMap ''b'' 2 5 = Inr (True, m')
          \<and> CASMap_Get m' ''b'' = Inr (Some 5))
   \<and> (\<exists>m'. CASMap_CompareAndSwap go_eq [1] example_CASMap ''b'' 3 3 = Inr (False, m'))
   \<and> (\<exists>m'. CASMap_CompareAndSwap go_eq [1] example_CASMap ''d'' 2 5 = Inr (False, m'))
   \<and> (\<exists>r'. RWMutexMap_CompareAndSwap go_eq [1] example_RWMutexMap ''b'' 2 5 = Inr (True, r')
          \<and> RWMutexMap_Get r' ''b'' = Inr (Some 5))
   \<and> (\<exists>r'. RWMutexMap_CompareAndSwap go_eq [1] example_RWMutexMap ''b'' 3 3 = Inr (False, r'))
   \<and> (\<exists>r'. RWMutexMap_CompareAndSwap go_eq [1] example_RWMutexMap ''d'' 2 5 = Inr (False, r'))"
proof -
  have ce: "comparable (go_eq :: int iface_eq)" by (rule comparable_go_eq)
  note wm = example_CASMap_wf and wr = example_RWMutexMap_wf
  have b: "CASMap_Get example_CASMap ''b'' = Inr (Some 2)"
      "RWMutexMap_Get example_RWMutexMap ''b'' = Inr (Some 2)"
    and d: "CASMap_Get example_CASMap ''d'' = Inr None"
      "RWMutexMap_Get example_RWMutexMap ''d'' = Inr None"
    by (simp_all add: example_CASMap_Get example_RWMutexMap_Get)
  have ne: "(2::int) \<noteq> 3" by simp
  note hit = CompareAndSwap_table [OF ce wm wr, of "''b''" "[1]" 2 5]
  note miss = CompareAndSwap_table [OF ce wm wr, of "''b''" "[1]" 3 3]
  note gone = CompareAndSwap_table [OF ce wm wr, of "''d''" "[1]" 2 5]
  have "\<exists>m'. CASMap_CompareAndSwap go_eq [1] example_CASMap ''b'' 2 5 = Inr (True, m')
            \<and> CASMap_Get m' ''b'' = Inr (Some 5)"
    using hit b(1) by blast
  moreover have "\<exists>m'. CASMap_CompareAndSwap go_eq [1] example_CASMap ''b'' 3 3 = Inr (False, m')"
    using miss b(1) ne by blast
  moreover have "\<exists>m'. CASMap_CompareAndSwap go_eq [1] example_CASMap ''d'' 2 5 = Inr (False, m')"
    using gone d(1) by blast
  moreover have "\<exists>r'. RWMutexMap_CompareAndSwap go_eq [1] example_RWMutexMap ''b'' 2 5
                       = Inr (True, r')
            \<and> RWMutexMap_Get r' ''b'' = Inr (Some 5)"
    using hit b(2) by blast
  moreover have "\<exists>r'. RWMutexMap_CompareAndSwap go_eq [1] example_RWMutexMap ''b'' 3 3
                       = Inr (False, r')"
    using miss b(2) ne by blast
  moreover have "\<exists>r'. RWMutexMap_CompareAndSwap go_eq [1] example_RWMutexMap ''d'' 2 5
                       = Inr (False, r')"
    using gone d(2) by blast
  ultimately show ?thesis using ce wm wr by blast
qed


subsection \<open>C3\<close>

text \<open>
  C3. \<^verbatim>\<open>Range(f)\<close> on either engine, with a visitor that makes write calls (\<^verbatim>\<open>Set\<close>, \<^verbatim>\<open>Delete\<close>,
  \<^verbatim>\<open>Clear\<close>, \<^verbatim>\<open>GetOrSet\<close>, \<^verbatim>\<open>SetIfAbsent\<close>, \<^verbatim>\<open>CompareAndSwap\<close>) on the container being iterated:
  the call returns (no deadlock on the mutex, no panic), and the entries the visitor was
  given are an initial stretch of the entries of the snapshot loaded at entry, in the
  order of the loop. So each entry is visited at most once, with the value it had in that
  snapshot, whatever the visitor wrote meanwhile; and the loop ends early only at the
  first entry the visitor answers \<open>False\<close> to.
\<close>

theorem Range_snapshot_isolation:
  assumes "comparable veq" and "CASMap_wf m" and "RWMutexMap_wf r"
  shows "(\<exists>log m'. CASMap_Range c (CASMap_visitor veq g) m = Inr (log, m') \<and> CASMap_wf m'
            \<and> prefix (visited log) (pick_order c (CASMap_snapshot m))
            \<and> distinct (map fst (visited log))
            \<and> stops_at_first_false (length (CASMap_snapshot m)) (answers log)
            \<and> list_all (\<lambda>(k, v, b). \<exists>s. b = snd (g k v s)) log)
       \<and> (\<exists>log r'. RWMutexMap_Range c (RWMutexMap_visitor veq h) r = Inr (log, r')
            \<and> RWMutexMap_wf r'
            \<and> prefix (visited log) (pick_order c (RWMutexMap_snapshot r))
            \<and> distinct (map fst (visited log))
            \<and> stops_at_first_false (length (RWMutexMap_snapshot r)) (answers log)
            \<and> list_all (\<lambda>(k, v, b). \<exists>s. b = snd (h k v s)) log)"
proof
  have "distinct (map fst (pick_order c (CASMap_snapshot m)))"
    using assms(2) by (simp add: distinct_keys_pick_order CASMap_wf_distinct)
  then show "\<exists>log m'. CASMap_Range c (CASMap_visitor veq g) m = Inr (log, m') \<and> CASMap_wf m'
            \<and> prefix (visited log) (pick_order c (CASMap_snapshot m))
            \<and> distinct (map fst (visited log))
            \<and> stops_at_first_false (length (CASMap_snapshot m)) (answers log)
            \<and> list_all (\<lambda>(k, v, b). \<exists>s. b = snd (g k v s)) log"
    using CASMap_Range_isolated [OF assms(1,2), of c g] by (blast intro: prefix_distinct_keys)
next
  have "distinct (map fst (pick_order c (RWMutexMap_snapshot r)))"
    using assms(3) by (simp add: distinct_keys_pick_order RWMutexMap_wf_distinct)
  then show "\<exists>log r'. RWMutexMap_Range c (RWMutexMap_visitor veq h) r = Inr (log, r')
            \<and> RWMutexMap_wf r'
            \<and> prefix (visited log) (pick_order c (RWMutexMap_snapshot r))
            \<and> distinct (map fst (visited log))
            \<and> stops_at_first_false (length (RWMutexMap_snapshot r)) (answers log)
            \<and> list_all (\<lambda>(k, v, b). \<exists>s. b = snd (h k v s)) log"
    using RWMutexMap_Range_isolated [OF assms(1,3), of c h] by (blast intro: prefix_distinct_keys)
qed

theorem Range_snapshot_isolation_witness:
  "comparable (go_eq :: int iface_eq)
   \<and> CASMap_wf example_CASMap \<and> RWMutexMap_wf example_RWMutexMap
   \<and> (\<exists>log m'. CASMap_Range [1] (CASMap_visitor go_eq example_visitor) example_CASMap
                   = Inr (log, m')
          \<and> visited log = [(''b'', 2), (''a'', 1), (''c'', 1)])
   \<and> (\<exists>log r'. RWMutexMap_Range [1] (RWMutexMap_visitor go_eq example_visitor)
                   example_RWMutexMap
                   = Inr (log, r')
          \<and> visited log = [(''b'', 2), (''a'', 1), (''c'', 1)])"
proof -
  let ?es = "[(''b'', 2::int), (''a'', 1), (''c'', 1)]"
  have ce: "comparable (go_eq :: int iface_eq)" by (rule comparable_go_eq)
  note wm = example_CASMap_wf and wr = example_RWMutexMap_wf
  have sm: "pick_order [1] (CASMap_snapshot example_CASMap) = ?es"
    "length (CASMap_snapshot example_CASMap) = length ?es"
    by (simp_all add: example_CASMap_snapshot)
  have sr: "pick_order [1] (RWMutexMap_snapshot example_RWMutexMap) = ?es"
    "length (RWMutexMap_snapshot example_RWMutexMap) = length ?es"
    by (simp_all add: example_RWMutexMap_snapshot)
  from Range_snapshot_isolation [OF ce wm wr, of "[1]" example_visitor example_visitor]
  obtain log m' log' r' where
    cas: "CASMap_Range [1] (CASMap_visitor go_eq example_visitor) example_CASMap
            = Inr (log, m')"
      "prefix (visited log) (pick_order [1] (CASMap_snapshot example_CASMap))"
      "stops_at_first_false (length (CASMap_snapshot example_CASMap)) (answers log)"
      "list_all (\<lambda>(k, v, b). \<exists>s :: (string, int) CASMap. b = snd (example_visitor k v s)) log"
      and
    rw: "RWMutexMap_Range [1] (RWMutexMap_visitor go_eq example_visitor) example_RWMutexMap
            = Inr (log', r')"
      "prefix (visited log') (pick_order [1] (RWMutexMap_snapshot example_RWMutexMap))"
      "stops_at_first_false (length (RWMutexMap_snapshot example_RWMutexMap)) (answers log')"
      "list_all (\<lambda>(k, v, b). \<exists>s :: (string, int) RWMutexMap. b = snd (example_visitor k v s))
         log'"
    by blast
  have "list_all (\<lambda>(k, v, b). b) log"
    using cas(4) by (auto simp: list_all_iff example_visitor_def)
  with cas(2,3) have "visited log = ?es"
    unfolding sm by (rule visits_all_when_never_stopped)
  moreover have "list_all (\<lambda>(k, v, b). b) log'"
    using rw(4) by (auto simp: list_all_iff example_visitor_def)
  with rw(2,3) have "visited log' = ?es"
    unfolding sr by (rule visits_all_when_never_stopped)
  ultimately show ?thesis using ce wm wr cas(1) rw(1) by blast
qed


subsection \<open>C4\<close>




subsection \<open>C5\<close>




subsection \<open>C6\<close>




subsection \<open>C7\<close>

text \<open>
  C7. \<^verbatim>\<open>Delete(k)\<close> of an absent key, on either engine, returns the container as it was:
  the heap is the same (no copy was allocated), the cell is the same, \<^verbatim>\<open>Len()\<close> and every
  entry are unchanged, and in the CAS engine \<^verbatim>\<open>data.CompareAndSwap\<close> was not called. (For
  a present key a copy is allocated and, in the CAS engine, one \<^verbatim>\<open>CompareAndSwap\<close> made.)
\<close>

theorem Delete_absent_no_effect:
  assumes "CASMap_wf m" and "RWMutexMap_wf r"
  shows "(CASMap_Get m k = Inr None \<longrightarrow>
            (\<exists>m'. CASMap_Delete c m k = Inr m' \<and> m' = m
               \<and> CASMap.heap m' = CASMap.heap m \<and> CASMap.data m' = CASMap.data m
               \<and> cas_calls m' = cas_calls m \<and> CASMap_Len m' = CASMap_Len m
               \<and> (\<forall>k'. CASMap_Get m' k' = CASMap_Get m k')))
       \<and> (\<forall>x. CASMap_Get m k = Inr (Some x) \<longrightarrow>
            (\<exists>m'. CASMap_Delete c m k = Inr m'
               \<and> length (CASMap.heap m') = Suc (length (CASMap.heap m))
               \<and> cas_calls m' = Suc (cas_calls m)))
       \<and> (RWMutexMap_Get r k = Inr None \<longrightarrow>
            (\<exists>r'. RWMutexMap_Delete c r k = Inr r' \<and> r' = r
               \<and> RWMutexMap.heap r' = RWMutexMap.heap r
               \<and> RWMutexMap.data r' = RWMutexMap.data r
               \<and> RWMutexMap_Len r' = RWMutexMap_Len r
               \<and> (\<forall>k'. RWMutexMap_Get r' k' = RWMutexMap_Get r k')))
       \<and> (\<forall>x. RWMutexMap_Get r k = Inr (Some x) \<longrightarrow>
            (\<exists>r'. RWMutexMap_Delete c r k = Inr r'
               \<and> length (RWMutexMap.heap r') = Suc (length (RWMutexMap.heap r))))"
  using assms
  by (simp add: CASMap_Get_eq CASMap_Delete_eq RWMutexMap_Get_eq RWMutexMap_Delete_eq)

theorem Delete_absent_no_effect_witness:
  "CASMap_wf example_CASMap \<and> RWMutexMap_wf example_RWMutexMap
   \<and> CASMap_Delete [1] example_CASMap ''d'' = Inr example_CASMap
   \<and> RWMutexMap_Delete [1] example_RWMutexMap ''d'' = Inr example_RWMutexMap
   \<and> (\<exists>m'. CASMap_Delete [1] example_CASMap ''a'' = Inr m'
          \<and> length (CASMap.heap m') = 5 \<and> cas_calls m' = 4)
   \<and> (\<exists>r'. RWMutexMap_Delete [1] example_RWMutexMap ''a'' = Inr r'
          \<and> length (RWMutexMap.heap r') = 5)"
proof -
  note wm = example_CASMap_wf and wr = example_RWMutexMap_wf
  have gm: "CASMap_Get example_CASMap ''d'' = Inr None"
    "CASMap_Get example_CASMap ''a'' = Inr (Some 1)"
    by (simp_all add: example_CASMap_Get)
  have gr: "RWMutexMap_Get example_RWMutexMap ''d'' = Inr None"
    "RWMutexMap_Get example_RWMutexMap ''a'' = Inr (Some 1)"
    by (simp_all add: example_RWMutexMap_Get)
  have size: "length (CASMap.heap example_CASMap) = 4" "cas_calls example_CASMap = 3"
    "length (RWMutexMap.heap example_RWMutexMap) = 4"
    by (simp_all add: example_CASMap_def example_RWMutexMap_def)
  note absent = Delete_absent_no_effect [OF wm wr, of "''d''" "[1]"]
  note present = Delete_absent_no_effect [OF wm wr, of "''a''" "[1]"]
  have "CASMap_Delete [1] example_CASMap ''d'' = Inr example_CASMap"
    using absent gm(1) by blast
  moreover have "RWMutexMap_Delete [1] example_RWMutexMap ''d'' = Inr example_RWMutexMap"
    using absent gr(1) by blast
  moreover have "\<exists>m'. CASMap_Delete [1] example_CASMap ''a'' = Inr m'
          \<and> length (CASMap.heap m') = 5 \<and> cas_calls m' = 4"
    using present gm(2) size by auto
  moreover have "\<exists>r'. RWMutexMap_Delete [1] example_RWMutexMap ''a'' = Inr r'
          \<and> length (RWMutexMap.heap r') = 5"
    using present gr(2) size by auto
  ultimately show ?thesis using wm wr by blast
qed


subsection \<open>C8\<close>

text \<open>
  C8. Whenever \<^verbatim>\<open>CompareAndSwap(k, old, new)\<close> returns \<^verbatim>\<open>false\<close>, on either engine, the
  container is exactly as before: no entry added, removed or modified, nothing
  allocated, and in the CAS engine no \<^verbatim>\<open>data.CompareAndSwap\<close> was attempted, so the loop
  made no second turn. It returns \<^verbatim>\<open>false\<close> so when \<open>k\<close> is absent and when \<^verbatim>\<open>compare\<close> finds
  the stored value different from \<open>old\<close>.
\<close>

theorem CompareAndSwap_false_unchanged:
  assumes "CASMap_wf m" and "RWMutexMap_wf r"
  shows "(\<forall>m'. CASMap_CompareAndSwap veq c m k old new = Inr (False, m') \<longrightarrow> m' = m)
       \<and> (CASMap_Get m k = Inr None \<longrightarrow>
            CASMap_CompareAndSwap veq c m k old new = Inr (False, m))
       \<and> (\<forall>x. CASMap_Get m k = Inr (Some x) \<and> compare veq x old = Inr False \<longrightarrow>
            CASMap_CompareAndSwap veq c m k old new = Inr (False, m))
       \<and> (\<forall>r'. RWMutexMap_CompareAndSwap veq c r k old new = Inr (False, r') \<longrightarrow> r' = r)
       \<and> (RWMutexMap_Get r k = Inr None \<longrightarrow>
            RWMutexMap_CompareAndSwap veq c r k old new = Inr (False, r))
       \<and> (\<forall>x. RWMutexMap_Get r k = Inr (Some x) \<and> compare veq x old = Inr False \<longrightarrow>
            RWMutexMap_CompareAndSwap veq c r k old new = Inr (False, r))"
  using assms
  by (auto simp: CASMap_Get_eq CASMap_CompareAndSwap_eq RWMutexMap_Get_eq
      RWMutexMap_CompareAndSwap_eq compare_def split: option.splits if_splits)

theorem CompareAndSwap_false_unchanged_witness:
  "CASMap_wf example_CASMap \<and> RWMutexMap_wf example_RWMutexMap
   \<and> CASMap_CompareAndSwap go_eq [1] example_CASMap ''b'' 3 4 = Inr (False, example_CASMap)
   \<and> CASMap_CompareAndSwap go_eq [1] example_CASMap ''d'' 3 4 = Inr (False, example_CASMap)
   \<and> RWMutexMap_CompareAndSwap go_eq [1] example_RWMutexMap ''b'' 3 4
       = Inr (False, example_RWMutexMap)
   \<and> RWMutexMap_CompareAndSwap go_eq [1] example_RWMutexMap ''d'' 3 4
       = Inr (False, example_RWMutexMap)"
proof -
  note wm = example_CASMap_wf and wr = example_RWMutexMap_wf
  have gm: "CASMap_Get example_CASMap ''d'' = Inr None"
    "CASMap_Get example_CASMap ''b'' = Inr (Some 2)"
    by (simp_all add: example_CASMap_Get)
  have gr: "RWMutexMap_Get example_RWMutexMap ''d'' = Inr None"
    "RWMutexMap_Get example_RWMutexMap ''b'' = Inr (Some 2)"
    by (simp_all add: example_RWMutexMap_Get)
  have ne: "compare go_eq (2::int) 3 = Inr False" by (simp add: compare_def go_eq_def)
  note other = CompareAndSwap_false_unchanged [OF wm wr, of go_eq "[1]" "''b''" 3 4]
  note absent = CompareAndSwap_false_unchanged [OF wm wr, of go_eq "[1]" "''d''" 3 4]
  have "CASMap_CompareAndSwap go_eq [1] example_CASMap ''b'' 3 4 = Inr (False, example_CASMap)"
    using other gm(2) ne by blast
  moreover
  have "CASMap_CompareAndSwap go_eq [1] example_CASMap ''d'' 3 4 = Inr (False, example_CASMap)"
    using absent gm(1) by blast
  moreover
  have "RWMutexMap_CompareAndSwap go_eq [1] example_RWMutexMap ''b'' 3 4
          = Inr (False, example_RWMutexMap)"
    using other gr(2) ne by blast
  moreover
  have "RWMutexMap_CompareAndSwap go_eq [1] example_RWMutexMap ''d'' 3 4
          = Inr (False, example_RWMutexMap)"
    using absent gr(1) by blast
  ultimately show ?thesis using wm wr by blast
qed


subsection \<open>C9\<close>

text \<open>
  C9. When the value type has well-defined equality, \<^verbatim>\<open>compare(a, b)\<close> returns (it does not
  panic) and is \<^verbatim>\<open>true\<close> exactly when \<open>a = b\<close>; \<^verbatim>\<open>CompareAndSwap\<close> then never runs into the
  panic of the interface comparison, on any container of either engine, and on a
  well-formed one it returns a result. Without the precondition the panic is real: for a
  value type without equality, \<^verbatim>\<open>CompareAndSwap\<close> on a present key panics.
\<close>

theorem compare_total_when_comparable:
  assumes "comparable veq" and "CASMap_wf m" and "RWMutexMap_wf r"
  shows "compare veq a b = Inr (a = b)
       \<and> CASMap_CompareAndSwap veq c m0 k old new \<noteq> Inl UncomparableType
       \<and> RWMutexMap_CompareAndSwap veq c r0 k old new \<noteq> Inl UncomparableType
       \<and> (\<exists>swapped m'. CASMap_CompareAndSwap veq c m k old new = Inr (swapped, m'))
       \<and> (\<exists>swapped r'. RWMutexMap_CompareAndSwap veq c r k old new = Inr (swapped, r'))
       \<and> (\<forall>x. CASMap_Get m k = Inr (Some x) \<longrightarrow>
              CASMap_CompareAndSwap no_eq c m k old new = Inl UncomparableType)
       \<and> (\<forall>x. RWMutexMap_Get r k = Inr (Some x) \<longrightarrow>
              RWMutexMap_CompareAndSwap no_eq c r k old new = Inl UncomparableType)"
proof (intro conjI)
  note eq = comparableD [OF assms(1)]
  show "compare veq a b = Inr (a = b)" by (simp add: compare_def eq)
  show "CASMap_CompareAndSwap veq c m0 k old new \<noteq> Inl UncomparableType"
    using assms(1) by (rule CASMap_CompareAndSwap_no_type_fault)
  show "RWMutexMap_CompareAndSwap veq c r0 k old new \<noteq> Inl UncomparableType"
    using assms(1) by (rule RWMutexMap_CompareAndSwap_no_type_fault)
  show "\<exists>swapped m'. CASMap_CompareAndSwap veq c m k old new = Inr (swapped, m')"
    using assms(2) by (auto simp: CASMap_CompareAndSwap_eq eq split: option.splits)
  show "\<exists>swapped r'. RWMutexMap_CompareAndSwap veq c r k old new = Inr (swapped, r')"
    using assms(3) by (auto simp: RWMutexMap_CompareAndSwap_eq eq split: option.splits)
  show "\<forall>x. CASMap_Get m k = Inr (Some x) \<longrightarrow>
              CASMap_CompareAndSwap no_eq c m k old new = Inl UncomparableType"
    using assms(2) by (simp add: CASMap_Get_eq CASMap_CompareAndSwap_eq no_eq_def)
  show "\<forall>x. RWMutexMap_Get r k = Inr (Some x) \<longrightarrow>
              RWMutexMap_CompareAndSwap no_eq c r k old new = Inl UncomparableType"
    using assms(3) by (simp add: RWMutexMap_Get_eq RWMutexMap_CompareAndSwap_eq no_eq_def)
qed

theorem compare_total_when_comparable_witness:
  "comparable (go_eq :: int iface_eq)
   \<and> CASMap_wf example_CASMap \<and> RWMutexMap_wf example_RWMutexMap
   \<and> compare go_eq (2::int) 2 = Inr True \<and> compare go_eq (2::int) 3 = Inr False
   \<and> (\<exists>swapped m'. CASMap_CompareAndSwap go_eq [1] example_CASMap ''b'' 2 5
                       = Inr (swapped, m'))
   \<and> (\<exists>swapped r'. RWMutexMap_CompareAndSwap go_eq [1] example_RWMutexMap ''b'' 2 5
                       = Inr (swapped, r'))
   \<and> CASMap_CompareAndSwap no_eq [1] example_CASMap ''b'' 2 5 = Inl UncomparableType
   \<and> RWMutexMap_CompareAndSwap no_eq [1] example_RWMutexMap ''b'' 2 5 = Inl UncomparableType"
proof -
  have ce: "comparable (go_eq :: int iface_eq)" by (rule comparable_go_eq)
  note wm = example_CASMap_wf and wr = example_RWMutexMap_wf
  have gm: "CASMap_Get example_CASMap ''b'' = Inr (Some 2)"
    by (simp add: example_CASMap_Get)
  have gr: "RWMutexMap_Get example_RWMutexMap ''b'' = Inr (Some 2)"
    by (simp add: example_RWMutexMap_Get)
  note same = compare_total_when_comparable
    [OF ce wm wr, of 2 2 "[1]" example_CASMap "''b''" 2 5 example_RWMutexMap]
  note other = compare_total_when_comparable
    [OF ce wm wr, of 2 3 "[1]" example_CASMap "''b''" 2 5 example_RWMutexMap]
  have "compare go_eq (2::int) 2 = Inr True" using same by simp
  moreover have "compare go_eq (2::int) 3 = Inr False" using other by simp
  moreover have "\<exists>swapped m'. CASMap_CompareAndSwap go_eq [1] example_CASMap ''b'' 2 5
                                = Inr (swapped, m')"
    using same by blast
  moreover have "\<exists>swapped r'. RWMutexMap_CompareAndSwap go_eq [1] example_RWMutexMap ''b'' 2 5
                                = Inr (swapped, r')"
    using same by blast
  moreover have "CASMap_CompareAndSwap no_eq [1] example_CASMap ''b'' 2 5 = Inl UncomparableType"
    using same gm by blast
  moreover have "RWMutexMap_CompareAndSwap no_eq [1] example_RWMutexMap ''b'' 2 5
                   = Inl UncomparableType"
    using same gr by blast
  ultimately show ?thesis using ce wm wr by blast
qed


subsection \<open>C10\<close>



end
